theory Spec2Isabelle
  imports Main
begin

section \<open>JavaScript strings and objects\<close>

text \<open>
  A string is the list of the bytes of its UTF-8 encoding, so a byte in the range of the
  letters a to z is always that ASCII letter. The string methods \<open>trim\<close>,
  \<open>toUpperCase\<close> and \<open>toLowerCase\<close> belong to the runtime and enter the model as
  parameters: they are fields of the environment record below, and nothing is assumed
  of them except where a theorem says so.
\<close>

definition is_lower_ascii :: "char \<Rightarrow> bool" where
  "is_lower_ascii c = (let n = (of_char c :: nat) in 97 \<le> n \<and> n \<le> 122)"

definition is_upper_ascii :: "char \<Rightarrow> bool" where
  "is_upper_ascii c = (let n = (of_char c :: nat) in 65 \<le> n \<and> n \<le> 90)"

text \<open>
  What the three methods compute on strings of ASCII characters; the scenarios, which
  only hold such strings, run with these.
\<close>

definition ascii_toUpperCase_char :: "char \<Rightarrow> char" where
  "ascii_toUpperCase_char c = (if is_lower_ascii c then char_of (of_char c - (32::nat)) else c)"

definition ascii_toLowerCase_char :: "char \<Rightarrow> char" where
  "ascii_toLowerCase_char c = (if is_upper_ascii c then char_of (of_char c + (32::nat)) else c)"

definition ascii_toUpperCase :: "string \<Rightarrow> string" where
  "ascii_toUpperCase s = map ascii_toUpperCase_char s"

definition ascii_toLowerCase :: "string \<Rightarrow> string" where
  "ascii_toLowerCase s = map ascii_toLowerCase_char s"

definition is_ascii_whitespace :: "char \<Rightarrow> bool" where
  "is_ascii_whitespace c = (let n = (of_char c :: nat) in (9 \<le> n \<and> n \<le> 13) \<or> n = 32)"

definition ascii_trim :: "string \<Rightarrow> string" where
  "ascii_trim s = rev (dropWhile is_ascii_whitespace (rev (dropWhile is_ascii_whitespace s)))"

definition join :: "string \<Rightarrow> string list \<Rightarrow> string" where
  "join sep xs = (case xs of [] \<Rightarrow> [] | y # ys \<Rightarrow> y @ concat (map (\<lambda>z. sep @ z) ys))"

text \<open>
  A plain object literal is an association list of its own properties, in source order.
  A property read \<open>obj[k]\<close> that misses the own properties falls through to
  \<open>Object.prototype\<close>, whose members are all truthy; \<open>property_truthy\<close> is the truth
  value that \<open>!obj[k]\<close> negates, for an object whose own values are strings.
\<close>

definition Object_prototype_keys :: "string list" where
  "Object_prototype_keys =
     [''constructor'', ''__defineGetter__'', ''__defineSetter__'', ''hasOwnProperty'',
      ''__lookupGetter__'', ''__lookupSetter__'', ''isPrototypeOf'',
      ''propertyIsEnumerable'', ''toString'', ''valueOf'', ''__proto__'',
      ''toLocaleString'']"

definition property_truthy :: "(string \<times> string) list \<Rightarrow> string \<Rightarrow> bool" where
  "property_truthy obj k =
     (case map_of obj k of
        Some v \<Rightarrow> v \<noteq> []
      | None \<Rightarrow> k \<in> set Object_prototype_keys)"

definition Object_values :: "(string \<times> string) list \<Rightarrow> string list" where
  "Object_values obj = map snd obj"

section \<open>Category model\<close>

text \<open>The members of the string-literal union type \<open>EmailLabel\<close>, in declaration order.\<close>

definition EmailLabel_values :: "string list" where
  "EmailLabel_values =
     [''TO_REPLY'', ''AWAITING_REPLY'', ''FYI'', ''ACTIONED'', ''NEWSLETTER'',
      ''MARKETING'', ''CALENDAR'', ''RECEIPT'', ''NOTIFICATION'', ''COLD_EMAIL'']"

definition LABEL_MAP :: "(string \<times> string) list" where
  "LABEL_MAP =
     [(''TO_REPLY'', ''To Reply''),
      (''AWAITING_REPLY'', ''Awaiting Reply''),
      (''FYI'', ''FYI''),
      (''ACTIONED'', ''Actioned''),
      (''NEWSLETTER'', ''Newsletter''),
      (''MARKETING'', ''Marketing''),
      (''CALENDAR'', ''Calendar''),
      (''RECEIPT'', ''Receipt''),
      (''NOTIFICATION'', ''Notification''),
      (''COLD_EMAIL'', ''Cold Email'')]"

section \<open>Messages, requests and the outside world\<close>

record Email =
  email_id :: string
  threadId :: string
  subject :: string
  email_from :: string
  snippet :: string
  date :: string
  labelIds :: "string list"

record gmail_label =
  label_id :: string
  label_name :: string

text \<open>Thrown values: \<open>new Error(msg)\<close>, or a \<open>TypeError\<close> raised by the runtime.\<close>

datatype exn = Error string | TypeError string

text \<open>
  The outcome of a \<open>fetch\<close> and of reading its body: the promise rejects or the body
  cannot be read, with the value that is thrown; \<open>response.ok\<close> is false, with the body
  text; or the parsed JSON body.
\<close>

datatype 'a response = Rejected exn | NotOk string | Ok 'a

text \<open>
  Every outbound \<open>fetch\<close>, with the fields the code puts into it. The first argument of a
  Gmail request is the bearer token, the first argument of a classification request the
  API key.
\<close>

datatype request =
    ListMessages string string nat "string option"
  | GetMessage string string
  | ClaudeMessages string string nat string
  | ListLabels string
  | CreateLabel string "(string \<times> string) list"
  | ModifyMessage string string "(string \<times> string list) list"

record list_data =
  list_messages :: "string list option"
  list_nextPageToken :: "string option"

record detail_data =
  detail_id :: string
  detail_threadId :: string
  payload_headers :: "(string \<times> string) list option"
  detail_snippet :: "string option"
  detail_labelIds :: "string list option"

text \<open>
  The environment of the server: the runtime's string methods, the configured API key,
  and the outside world, which answers each request as a function of the requests sent
  before it and of the request itself, so the same request may be answered differently
  over time. \<open>content\<close> of a classification reply is the list of the \<open>text\<close> fields of
  its blocks.
\<close>

record services =
  trim :: "string \<Rightarrow> string"
  toUpperCase :: "string \<Rightarrow> string"
  toLowerCase :: "string \<Rightarrow> string"
  ANTHROPIC_API_KEY :: "string option"
  messages_list :: "request list \<Rightarrow> request \<Rightarrow> list_data response"
  messages_get :: "request list \<Rightarrow> request \<Rightarrow> detail_data response"
  claude :: "request list \<Rightarrow> request \<Rightarrow> (string option list option) response"
  labels_list :: "request list \<Rightarrow> request \<Rightarrow> (gmail_label list option) response"
  labels_create :: "request list \<Rightarrow> request \<Rightarrow> gmail_label response"
  messages_modify :: "request list \<Rightarrow> request \<Rightarrow> unit response"

text \<open>
  The state of one server process: the module-level \<open>labelCache\<close> and the requests sent
  so far, oldest first.
\<close>

record world =
  labelCache :: "gmail_label list option"
  log :: "request list"

definition send :: "request \<Rightarrow> world \<Rightarrow> world" where
  "send r w = w\<lparr>log := log w @ [r]\<rparr>"

section \<open>Classifier\<close>

definition nl :: string where
  "nl = [CHR 0x0A]"

definition prompt :: "Email \<Rightarrow> string" where
  "prompt email = join nl
     [''Classify this email into exactly ONE category. Reply with ONLY the category name, nothing else.'',
      '''',
      ''Categories:'',
      ''- TO_REPLY: Emails requiring my personal response (business inquiries, customer questions, important communications from known contacts)'',
      ''- AWAITING_REPLY: Emails where I'm waiting for someone's response'',
      ''- FYI: Important information I should know but don't need to respond to'',
      ''- ACTIONED: Completed conversations with nothing left to do'',
      ''- NEWSLETTER: Content from publications, blogs, or subscribed services'',
      ''- MARKETING: Promotional emails about products, services, sales, or offers'',
      ''- CALENDAR: Scheduling, meeting invites, or calendar notifications'',
      ''- RECEIPT: Purchase confirmations, payment receipts, invoices, billing statements, order confirmations'',
      ''- NOTIFICATION: System alerts, status updates, app notifications'',
      ''- COLD_EMAIL: Unsolicited sales pitches, recruitment, partnership requests from unknown senders'',
      '''',
      ''Email:'',
      ''From: '' @ email_from email,
      ''Subject: '' @ subject email,
      ''Preview: '' @ snippet email,
      '''',
      ''Category:'']"

definition claude_request :: "string \<Rightarrow> Email \<Rightarrow> request" where
  "claude_request key email = ClaudeMessages key ''claude-3-haiku-20240307'' 20 (prompt email)"

text \<open>
  \<open>data.content[0]?.text?.trim().toUpperCase()\<close>: \<open>None\<close> is \<open>undefined\<close>, when there is
  no first block or it has no text.
\<close>

definition classification :: "services \<Rightarrow> string option list \<Rightarrow> string option" where
  "classification S blocks =
     (case blocks of
        [] \<Rightarrow> None
      | b # _ \<Rightarrow> map_option (\<lambda>t. toUpperCase S (trim S t)) b)"

text \<open>
  The validation step. \<open>undefined\<close> used as a property key is the string
  \<open>undefined\<close>, which the map does not have.
\<close>

definition validate :: "string option \<Rightarrow> string" where
  "validate c =
     (case c of
        None \<Rightarrow> (if \<not> property_truthy LABEL_MAP ''undefined'' then ''FYI'' else ''undefined'')
      | Some s \<Rightarrow> (if \<not> property_truthy LABEL_MAP s then ''FYI'' else s))"

definition classifyEmail :: "services \<Rightarrow> Email \<Rightarrow> world \<Rightarrow> (exn + string) \<times> world" where
  "classifyEmail S email w =
     (case ANTHROPIC_API_KEY S of
        None \<Rightarrow> (Inl (Error ''ANTHROPIC_API_KEY not configured''), w)
      | Some key \<Rightarrow>
          if key = [] then (Inl (Error ''ANTHROPIC_API_KEY not configured''), w)
          else
            let req = claude_request key email; w' = send req w in
            (case claude S (log w) req of
               Rejected e \<Rightarrow> (Inl e, w')
             | NotOk err \<Rightarrow> (Inl (Error (''Claude API error: '' @ err)), w')
             | Ok data \<Rightarrow>
                 (case data of
                    None \<Rightarrow> (Inl (TypeError ''data.content is undefined''), w')
                  | Some blocks \<Rightarrow> (Inr (validate (classification S blocks)), w'))))"

section \<open>Fetching a page of unlabeled messages\<close>

definition label_clause :: "string \<Rightarrow> string" where
  "label_clause label = ''-label:'' @ [CHR 0x22] @ label @ [CHR 0x22]"

definition excludeLabels :: string where
  "excludeLabels = join '' '' (map label_clause (Object_values LABEL_MAP))"

definition baseQuery :: "string \<Rightarrow> string" where
  "baseQuery section_name =
     (if section_name = ''inbox'' then ''in:inbox '' @ excludeLabels
      else ''-in:spam -in:trash '' @ excludeLabels)"

text \<open>\<open>if (pageToken)\<close>: an absent or empty token adds no page parameter.\<close>

definition truthy_token :: "string option \<Rightarrow> string option" where
  "truthy_token t = (case t of None \<Rightarrow> None | Some s \<Rightarrow> if s = [] then None else Some s)"

definition list_request :: "string \<Rightarrow> string \<Rightarrow> string option \<Rightarrow> request" where
  "list_request accessToken section_name pageToken =
     ListMessages accessToken (baseQuery section_name) 50 (truthy_token pageToken)"

definition getHeader :: "services \<Rightarrow> (string \<times> string) list \<Rightarrow> string \<Rightarrow> string" where
  "getHeader S headers name =
     (case find (\<lambda>h. toLowerCase S (fst h) = toLowerCase S name) headers of
        None \<Rightarrow> []
      | Some h \<Rightarrow> snd h)"

definition email_of_detail :: "services \<Rightarrow> detail_data \<Rightarrow> Email" where
  "email_of_detail S detail =
     (let headers = (case payload_headers detail of None \<Rightarrow> [] | Some hs \<Rightarrow> hs) in
      \<lparr>email_id = detail_id detail,
       threadId = detail_threadId detail,
       subject = getHeader S headers ''Subject'',
       email_from = getHeader S headers ''From'',
       snippet = (case detail_snippet detail of None \<Rightarrow> [] | Some t \<Rightarrow> t),
       date = getHeader S headers ''Date'',
       labelIds = (case detail_labelIds detail of None \<Rightarrow> [] | Some ls \<Rightarrow> ls)\<rparr>)"

text \<open>
  The loop over the listed message ids. A detail fetch that answers with a non-success
  status is a \<open>continue\<close>; one that rejects throws out of the loop, which has no
  \<open>try\<close> around it.
\<close>

fun hydrate ::
  "services \<Rightarrow> string \<Rightarrow> string list \<Rightarrow> Email list \<Rightarrow> world \<Rightarrow> (exn + Email list) \<times> world" where
  "hydrate S accessToken [] emails w = (Inr emails, w)"
| "hydrate S accessToken (msg # msgs) emails w =
     (let req = GetMessage accessToken msg; w' = send req w in
      case messages_get S (log w) req of
        Rejected e \<Rightarrow> (Inl e, w')
      | NotOk err \<Rightarrow> hydrate S accessToken msgs emails w'
      | Ok detail \<Rightarrow> hydrate S accessToken msgs (emails @ [email_of_detail S detail]) w')"

definition fetchEmails ::
  "services \<Rightarrow> string \<Rightarrow> string \<Rightarrow> string option \<Rightarrow> world
     \<Rightarrow> (exn + Email list \<times> string option) \<times> world" where
  "fetchEmails S accessToken section_name pageToken w =
     (let req = list_request accessToken section_name pageToken; w1 = send req w in
      case messages_list S (log w) req of
        Rejected e \<Rightarrow> (Inl e, w1)
      | NotOk err \<Rightarrow> (Inl (Error (''Failed to fetch emails: '' @ err)), w1)
      | Ok listData \<Rightarrow>
          (let msgs = (case list_messages listData of None \<Rightarrow> [] | Some ms \<Rightarrow> ms) in
           case hydrate S accessToken msgs [] w1 of
             (Inl e, w2) \<Rightarrow> (Inl e, w2)
           | (Inr emails, w2) \<Rightarrow> (Inr (emails, list_nextPageToken listData), w2)))"

section \<open>Label resolver\<close>

definition getAllLabels :: "services \<Rightarrow> string \<Rightarrow> world \<Rightarrow> (exn + gmail_label list) \<times> world" where
  "getAllLabels S accessToken w =
     (case labelCache w of
        Some cached \<Rightarrow> (Inr cached, w)
      | None \<Rightarrow>
          (let req = ListLabels accessToken; w1 = send req w in
           case labels_list S (log w) req of
             Rejected e \<Rightarrow> (Inl e, w1)
           | NotOk err \<Rightarrow> (Inl (Error ''Failed to fetch labels''), w1)
           | Ok data \<Rightarrow>
               (let labels = (case data of None \<Rightarrow> [] | Some ls \<Rightarrow> ls) in
                (Inr labels, w1\<lparr>labelCache := Some labels\<rparr>))))"

definition getOurLabelNames :: "string list" where
  "getOurLabelNames = Object_values LABEL_MAP"

definition getOurLabelIds :: "services \<Rightarrow> string \<Rightarrow> world \<Rightarrow> (exn + string list) \<times> world" where
  "getOurLabelIds S accessToken w =
     (case getAllLabels S accessToken w of
        (Inl e, w1) \<Rightarrow> (Inl e, w1)
      | (Inr allLabels, w1) \<Rightarrow>
          (let ourLabelNames = map (toLowerCase S) getOurLabelNames in
           (Inr (map label_id
                   (filter (\<lambda>l. toLowerCase S (label_name l) \<in> set ourLabelNames) allLabels)),
            w1)))"

definition name_matches :: "services \<Rightarrow> string \<Rightarrow> gmail_label \<Rightarrow> bool" where
  "name_matches S labelName l = (toLowerCase S (label_name l) = toLowerCase S labelName)"

definition create_request :: "string \<Rightarrow> string \<Rightarrow> request" where
  "create_request accessToken labelName =
     CreateLabel accessToken
       [(''name'', labelName),
        (''labelListVisibility'', ''labelShow''),
        (''messageListVisibility'', ''show'')]"

definition getOrCreateLabel ::
  "services \<Rightarrow> string \<Rightarrow> string \<Rightarrow> world \<Rightarrow> (exn + string) \<times> world" where
  "getOrCreateLabel S accessToken labelName w =
     (case getAllLabels S accessToken w of
        (Inl e, w1) \<Rightarrow> (Inl e, w1)
      | (Inr allLabels, w1) \<Rightarrow>
          (case find (name_matches S labelName) allLabels of
             Some existingLabel \<Rightarrow> (Inr (label_id existingLabel), w1)
           | None \<Rightarrow>
               (let req = create_request accessToken labelName; w2 = send req w1 in
                case labels_create S (log w1) req of
                  Rejected e \<Rightarrow> (Inl e, w2)
                | NotOk err \<Rightarrow> (Inl (Error (''Failed to create label: '' @ err)), w2)
                | Ok newLabel \<Rightarrow>
                    (Inr (label_id newLabel),
                     (case labelCache w2 of
                        None \<Rightarrow> w2
                      | Some cached \<Rightarrow>
                          w2\<lparr>labelCache :=
                                Some (cached @ [\<lparr>label_id = label_id newLabel,
                                                 label_name = label_name newLabel\<rparr>])\<rparr>)))))"

section \<open>Applying a label\<close>

text \<open>The JSON body of the modify request, as the list of its keys with their values.\<close>

definition modify_body :: "string \<Rightarrow> (string \<times> string list) list" where
  "modify_body labelId = [(''addLabelIds'', [labelId])]"

definition applyLabel ::
  "services \<Rightarrow> string \<Rightarrow> string \<Rightarrow> string \<Rightarrow> world \<Rightarrow> (exn + unit) \<times> world" where
  "applyLabel S accessToken messageId labelId w =
     (let req = ModifyMessage accessToken messageId (modify_body labelId); w1 = send req w in
      case messages_modify S (log w) req of
        Rejected e \<Rightarrow> (Inl e, w1)
      | NotOk err \<Rightarrow> (Inl (Error (''Failed to modify message: '' @ err)), w1)
      | Ok u \<Rightarrow> (Inr (), w1))"

section \<open>Batch processor\<close>

record ProcessingResult =
  total :: nat
  processed :: nat
  skipped :: nat
  errors :: nat
  results :: "(Email \<times> string) list"
  nextPageToken :: "string option"

text \<open>
  The body of the \<open>try\<close> block for one message. \<open>LABEL_MAP[label]\<close> is always defined
  there, because the classifier only returns keys of the map; the model keeps the other
  branch as a thrown \<open>TypeError\<close>.
\<close>

definition processEmail ::
  "services \<Rightarrow> string \<Rightarrow> Email \<Rightarrow> world \<Rightarrow> (exn + string) \<times> world" where
  "processEmail S accessToken email w =
     (case classifyEmail S email w of
        (Inl e, w1) \<Rightarrow> (Inl e, w1)
      | (Inr label, w1) \<Rightarrow>
          (case map_of LABEL_MAP label of
             None \<Rightarrow> (Inl (TypeError ''labelName is undefined''), w1)
           | Some labelName \<Rightarrow>
               (case getOrCreateLabel S accessToken labelName w1 of
                  (Inl e, w2) \<Rightarrow> (Inl e, w2)
                | (Inr labelId, w2) \<Rightarrow>
                    (case applyLabel S accessToken (email_id email) labelId w2 of
                       (Inl e, w3) \<Rightarrow> (Inl e, w3)
                     | (Inr u, w3) \<Rightarrow> (Inr label, w3)))))"

text \<open>
  The \<open>for\<close> loop over the hydrated messages, with the three local variables
  \<open>results\<close>, \<open>errors\<close> and \<open>skipped\<close> it runs over.
\<close>

fun process_loop ::
  "services \<Rightarrow> string \<Rightarrow> Email list \<Rightarrow> (Email \<times> string) list \<Rightarrow> nat \<Rightarrow> nat \<Rightarrow> world
     \<Rightarrow> ((Email \<times> string) list \<times> nat \<times> nat) \<times> world" where
  "process_loop S accessToken [] results_acc errors_acc skipped_acc w =
     ((results_acc, errors_acc, skipped_acc), w)"
| "process_loop S accessToken (email # rest) results_acc errors_acc skipped_acc w =
     (case processEmail S accessToken email w of
        (Inl err, w') \<Rightarrow>
          process_loop S accessToken rest results_acc (errors_acc + 1) skipped_acc w'
      | (Inr label, w') \<Rightarrow>
          process_loop S accessToken rest (results_acc @ [(email, label)]) errors_acc skipped_acc w')"

text \<open>
  The request handler. The body is \<open>Inl msg\<close> when \<open>req.json()\<close> throws with that
  message; \<open>body_section\<close> is the \<open>section\<close> field, defaulting to \<open>all\<close> when absent.
\<close>

record request_body =
  accessToken :: "string option"
  pageToken :: "string option"
  body_section :: "string option"

record http_request =
  http_method :: string
  http_body :: "string + request_body"

datatype serve_response =
    Preflight
  | Success ProcessingResult
  | Failure string

definition message :: "exn \<Rightarrow> string" where
  "message e = (case e of Error m \<Rightarrow> m | TypeError m \<Rightarrow> m)"

definition serve :: "services \<Rightarrow> http_request \<Rightarrow> world \<Rightarrow> serve_response \<times> world" where
  "serve S req w =
     (if http_method req = ''OPTIONS'' then (Preflight, w)
      else
        case http_body req of
          Inl parse_error \<Rightarrow> (Failure parse_error, w)
        | Inr body \<Rightarrow>
            (case truthy_token (accessToken body) of
               None \<Rightarrow> (Failure ''Access token is required'', w)
             | Some tok \<Rightarrow>
                 (let section_name = (case body_section body of None \<Rightarrow> ''all'' | Some s \<Rightarrow> s) in
                  case fetchEmails S tok section_name (pageToken body) w of
                    (Inl e, w1) \<Rightarrow> (Failure (message e), w1)
                  | (Inr (emails, next), w1) \<Rightarrow>
                      (case process_loop S tok emails [] 0 0 w1 of
                         ((results_acc, errors_acc, skipped_acc), w2) \<Rightarrow>
                           (Success \<lparr>total = length emails,
                                     processed = length results_acc,
                                     skipped = skipped_acc,
                                     errors = errors_acc,
                                     results = results_acc,
                                     nextPageToken = next\<rparr>, w2)))))"

section \<open>Run orchestrator\<close>

record TotalStats =
  total :: nat
  processed :: nat
  skipped :: nat
  errors :: nat
  batches :: nat

text \<open>
  What \<open>supabase.functions.invoke\<close> hands back: a function error with the message that is
  thrown, a payload with an \<open>error\<close> field, or a batch result.
\<close>

datatype invoke_reply = FnError string | DataError string | Data ProcessingResult

text \<open>
  The orchestrator is suspended at three kinds of \<open>await\<close>: the session lookup, batch
  number \<open>n\<close> in flight, and the delay after batch \<open>n\<close>. The stop button's handler can only
  run while the orchestrator is suspended.
\<close>

datatype phase = AwaitSession | AwaitBatch nat | AwaitDelay nat

text \<open>
  The orchestrator's surroundings: the session's provider token, the batch processor's
  answer to each invocation (as a function of the earlier invocations and of this one's
  token, section and page token), and the phases during which the user presses stop.
\<close>

record client_env =
  provider_token :: "string option"
  invoke :: "(string \<times> string \<times> string option) list
               \<Rightarrow> (string \<times> string \<times> string option) \<Rightarrow> invoke_reply"
  stop_clicked :: "phase \<Rightarrow> bool"

text \<open>
  The component's state, the stop flag, and the trace of the invocations made so far.
\<close>

record dashboard =
  processing :: bool
  processingAll :: bool
  result :: "ProcessingResult option"
  totalStats :: "TotalStats option"
  currentBatch :: nat
  error :: "string option"
  currentSection :: string
  stopRequestedRef :: bool
  invocations :: "(string \<times> string \<times> string option) list"

text \<open>How the loop was left: by either \<open>break\<close>, or through the \<open>catch\<close> block.\<close>

datatype run_state = COMPLETED | STOPPED | FAILED

definition handleStop :: "dashboard \<Rightarrow> dashboard" where
  "handleStop d = d\<lparr>stopRequestedRef := True\<rparr>"

definition await :: "client_env \<Rightarrow> phase \<Rightarrow> dashboard \<Rightarrow> dashboard" where
  "await E p d = (if stop_clicked E p then handleStop d else d)"

definition processOneBatch ::
  "client_env \<Rightarrow> string \<Rightarrow> string \<Rightarrow> string option \<Rightarrow> dashboard
     \<Rightarrow> (exn + ProcessingResult) \<times> dashboard" where
  "processOneBatch E providerToken section_name page d =
     (let args = (providerToken, section_name, page);
          d' = d\<lparr>invocations := invocations d @ [args]\<rparr>
      in case invoke E (invocations d) args of
           FnError m \<Rightarrow> (Inl (Error m), d')
         | DataError m \<Rightarrow> (Inl (Error m), d')
         | Data batchResult \<Rightarrow> (Inr batchResult, d'))"

definition zero_stats :: TotalStats where
  "zero_stats = \<lparr>total = 0, processed = 0, skipped = 0, errors = 0, batches = 0\<rparr>"

definition add_batch :: "TotalStats \<Rightarrow> ProcessingResult \<Rightarrow> TotalStats" where
  "add_batch stats batchResult =
     stats\<lparr>TotalStats.total := TotalStats.total stats + ProcessingResult.total batchResult,
           TotalStats.processed :=
             TotalStats.processed stats + ProcessingResult.processed batchResult,
           TotalStats.skipped :=
             TotalStats.skipped stats
               + (if ProcessingResult.skipped batchResult = 0 then 0
                  else ProcessingResult.skipped batchResult),
           TotalStats.errors := TotalStats.errors stats + ProcessingResult.errors batchResult\<rparr>"

definition shown_result :: "TotalStats \<Rightarrow> (Email \<times> string) list \<Rightarrow> ProcessingResult" where
  "shown_result stats allResults =
     \<lparr>ProcessingResult.total = TotalStats.total stats,
      ProcessingResult.processed = TotalStats.processed stats,
      ProcessingResult.skipped = TotalStats.skipped stats,
      ProcessingResult.errors = TotalStats.errors stats,
      results = allResults,
      nextPageToken = None\<rparr>"

text \<open>
  The \<open>while (true)\<close> loop. It runs for as long as the batch processor keeps returning a
  cursor, so the model counts iterations down from a bound and returns \<open>None\<close> when the
  bound is used up before the loop is left.
\<close>

fun batch_loop ::
  "nat \<Rightarrow> client_env \<Rightarrow> string \<Rightarrow> string \<Rightarrow> (Email \<times> string) list \<Rightarrow> TotalStats
     \<Rightarrow> string option \<Rightarrow> dashboard \<Rightarrow> ((exn + run_state) \<times> dashboard) option" where
  "batch_loop 0 E providerToken section_name allResults stats page d = None"
| "batch_loop (Suc fuel) E providerToken section_name allResults stats page d =
     (let stats1 = stats\<lparr>batches := batches stats + 1\<rparr>;
          d1 = d\<lparr>currentBatch := batches stats1\<rparr>;
          (reply, d2) = processOneBatch E providerToken section_name page d1;
          d3 = await E (AwaitBatch (batches stats1)) d2
      in case reply of
           Inl e \<Rightarrow> Some (Inl e, d3)
         | Inr batchResult \<Rightarrow>
             (let stats2 = add_batch stats1 batchResult;
                  allResults' = allResults @ results batchResult;
                  d4 = d3\<lparr>totalStats := Some stats2,
                          result := Some (shown_result stats2 allResults')\<rparr>;
                  page' = truthy_token (nextPageToken batchResult)
              in if page' = None then Some (Inr COMPLETED, d4)
                 else if stopRequestedRef d4 then Some (Inr STOPPED, d4)
                 else batch_loop fuel E providerToken section_name allResults' stats2 page'
                        (await E (AwaitDelay (batches stats2)) d4)))"

definition handleProcessSection ::
  "nat \<Rightarrow> client_env \<Rightarrow> string \<Rightarrow> dashboard \<Rightarrow> (run_state \<times> dashboard) option" where
  "handleProcessSection fuel E section_name d =
     (let d0 = d\<lparr>stopRequestedRef := False, processingAll := True, processing := True,
                 currentSection := section_name, error := None, result := None,
                 currentBatch := 0, totalStats := Some zero_stats\<rparr>;
          d1 = await E AwaitSession d0;
          finally = (\<lambda>x. x\<lparr>processing := False, processingAll := False\<rparr>);
          catch = (\<lambda>e x. x\<lparr>error := Some (message e)\<rparr>)
      in case truthy_token (provider_token E) of
           None \<Rightarrow>
             Some (FAILED,
                   finally (catch (Error ''No Gmail access token. Please sign out and sign in again.'') d1))
         | Some providerToken \<Rightarrow>
             (case batch_loop fuel E providerToken section_name [] zero_stats None d1 of
                None \<Rightarrow> None
              | Some (Inl e, d2) \<Rightarrow> Some (FAILED, finally (catch e d2))
              | Some (Inr st, d2) \<Rightarrow> Some (st, finally d2)))"

section \<open>Observations on runs\<close>

text \<open>The requests sent between an earlier and a later state of the process.\<close>

definition requests_during :: "world \<Rightarrow> world \<Rightarrow> request list" where
  "requests_during w w' = drop (length (log w)) (log w')"

definition is_ListLabels :: "request \<Rightarrow> bool" where
  "is_ListLabels r = (case r of ListLabels t \<Rightarrow> True | _ \<Rightarrow> False)"



definition list_label_calls :: "request list \<Rightarrow> nat" where
  "list_label_calls rs = length (filter is_ListLabels rs)"

text \<open>
  The outcome of each message of a batch in turn, each started in the state the previous
  one left: \<open>Inl\<close> where classify, resolve or apply threw.
\<close>

fun message_outcomes :: "services \<Rightarrow> string \<Rightarrow> Email list \<Rightarrow> world \<Rightarrow> (exn + string) list" where
  "message_outcomes S tok [] w = []"
| "message_outcomes S tok (email # rest) w =
     (case processEmail S tok email w of
        (r, w') \<Rightarrow> r # message_outcomes S tok rest w')"

definition labelled :: "Email list \<Rightarrow> (exn + string) list \<Rightarrow> (Email \<times> string) list" where
  "labelled emails outs =
     concat (map (\<lambda>(e, r). case r of Inl x \<Rightarrow> [] | Inr label \<Rightarrow> [(e, label)]) (zip emails outs))"

text \<open>The answer to each detail fetch of a page in turn.\<close>

fun detail_replies :: "services \<Rightarrow> string \<Rightarrow> string list \<Rightarrow> world \<Rightarrow> detail_data response list" where
  "detail_replies S tok [] w = []"
| "detail_replies S tok (msg # msgs) w =
     messages_get S (log w) (GetMessage tok msg)
       # detail_replies S tok msgs (send (GetMessage tok msg) w)"

definition hydrated :: "services \<Rightarrow> detail_data response list \<Rightarrow> Email list" where
  "hydrated S replies =
     concat (map (\<lambda>r. case r of Ok detail \<Rightarrow> [email_of_detail S detail] | _ \<Rightarrow> []) replies)"

text \<open>The value thrown by the first detail fetch that rejects, if any does.\<close>

fun first_rejected :: "'a response list \<Rightarrow> exn option" where
  "first_rejected [] = None"
| "first_rejected (r # rs) = (case r of Rejected e \<Rightarrow> Some e | _ \<Rightarrow> first_rejected rs)"

text \<open>Occurrences of a pattern in a string, counted by start position.\<close>

fun count_occurrences :: "string \<Rightarrow> string \<Rightarrow> nat" where
  "count_occurrences pat [] = (if pat = [] then 1 else 0)"
| "count_occurrences pat (c # cs) =
     (if take (length pat) (c # cs) = pat then 1 else 0) + count_occurrences pat cs"

text \<open>
  The exclusion clauses the query is to hold, written out: one clause
  \<open>-label:"name"\<close> for each of the ten managed label names.
\<close>

definition managed_exclusions :: "string list" where
  "managed_exclusions =
     [''-label:\"To Reply\"'',
      ''-label:\"Awaiting Reply\"'',
      ''-label:\"FYI\"'',
      ''-label:\"Actioned\"'',
      ''-label:\"Newsletter\"'',
      ''-label:\"Marketing\"'',
      ''-label:\"Calendar\"'',
      ''-label:\"Receipt\"'',
      ''-label:\"Notification\"'',
      ''-label:\"Cold Email\"'']"

text \<open>The labels a modify body lists for removal: none when the key is absent.\<close>

definition removeLabelIds_of :: "(string \<times> string list) list \<Rightarrow> string list" where
  "removeLabelIds_of body = (case map_of body ''removeLabelIds'' of None \<Rightarrow> [] | Some ls \<Rightarrow> ls)"

definition addLabelIds_of :: "(string \<times> string list) list \<Rightarrow> string list" where
  "addLabelIds_of body = (case map_of body ''addLabelIds'' of None \<Rightarrow> [] | Some ls \<Rightarrow> ls)"

definition is_ModifyMessage :: "request \<Rightarrow> bool" where
  "is_ModifyMessage r = (case r of ModifyMessage t m b \<Rightarrow> True | _ \<Rightarrow> False)"

definition add_only :: "request \<Rightarrow> bool" where
  "add_only r =
     (case r of
        ModifyMessage t m body \<Rightarrow>
          map fst body = [''addLabelIds''] \<and> length (addLabelIds_of body) = 1
          \<and> removeLabelIds_of body = []
      | _ \<Rightarrow> True)"

text \<open>The number of detail fetches answered with a non-success status.\<close>

definition failed_hydrations :: "detail_data response list \<Rightarrow> nat" where
  "failed_hydrations replies =
     length (filter (\<lambda>r. case r of NotOk err \<Rightarrow> True | _ \<Rightarrow> False) replies)"

text \<open>
  A later state of the process, as any sequence of operations of the server leaves it:
  the log has grown by requests whose modify bodies only add, and a filled cache has
  only been extended, without another label listing.
\<close>

definition steps :: "world \<Rightarrow> world \<Rightarrow> bool" where
  "steps w w' =
     (\<exists>d. log w' = log w @ d \<and> (\<forall>r \<in> set d. add_only r)
        \<and> (case labelCache w of
              None \<Rightarrow> True
            | Some c \<Rightarrow> (\<exists>extra. labelCache w' = Some (c @ extra))
                        \<and> (\<forall>r \<in> set d. \<not> is_ListLabels r)))"

section \<open>Concrete scenarios\<close>

text \<open>
  A provider with one system label and a page of three messages: the detail fetch of
  \<open>m3\<close> fails and the modify call for \<open>m2\<close> fails. Created labels carry the requested
  name. The classification service always answers with the given text.
\<close>

definition demo_detail :: "string \<Rightarrow> detail_data" where
  "demo_detail i =
     \<lparr>detail_id = i, detail_threadId = i,
      payload_headers = Some [(''subject'', ''Hello''), (''FROM'', ''ann@example.org'')],
      detail_snippet = None, detail_labelIds = Some [''INBOX'', ''UNREAD'']\<rparr>"

definition demo_services :: "string \<Rightarrow> services" where
  "demo_services reply =
     \<lparr>trim = ascii_trim, toUpperCase = ascii_toUpperCase, toLowerCase = ascii_toLowerCase,
      ANTHROPIC_API_KEY = Some ''sk-test'',
      messages_list =
        (\<lambda>h r. Ok \<lparr>list_messages = Some [''m1'', ''m2'', ''m3''], list_nextPageToken = None\<rparr>),
      messages_get =
        (\<lambda>h r. case r of
                  GetMessage t i \<Rightarrow> if i = ''m3'' then NotOk ''not found'' else Ok (demo_detail i)
                | _ \<Rightarrow> NotOk ''bad request''),
      claude = (\<lambda>h r. Ok (Some [Some reply])),
      labels_list = (\<lambda>h r. Ok (Some [\<lparr>label_id = ''INBOX'', label_name = ''INBOX''\<rparr>])),
      labels_create =
        (\<lambda>h r. case r of
                  CreateLabel t b \<Rightarrow>
                    (case map_of b ''name'' of
                       Some n \<Rightarrow> Ok \<lparr>label_id = ''Label_1'', label_name = n\<rparr>
                     | None \<Rightarrow> NotOk ''name required'')
                | _ \<Rightarrow> NotOk ''bad request''),
      messages_modify =
        (\<lambda>h r. case r of
                  ModifyMessage t m b \<Rightarrow> if m = ''m2'' then NotOk ''backend error'' else Ok ()
                | _ \<Rightarrow> NotOk ''bad request'')\<rparr>"

definition fresh_process :: world where
  "fresh_process = \<lparr>labelCache = None, log = []\<rparr>"

definition demo_request :: http_request where
  "demo_request =
     \<lparr>http_method = ''POST'',
      http_body = Inr \<lparr>accessToken = Some ''tok'', pageToken = None,
                       body_section = Some ''inbox''\<rparr>\<rparr>"

definition demo_email :: "string \<Rightarrow> Email" where
  "demo_email i =
     \<lparr>email_id = i, threadId = i, subject = ''Hello'', email_from = ''ann@example.org'',
      snippet = [], date = [], labelIds = [''INBOX'', ''UNREAD'']\<rparr>"

text \<open>The same provider, except that the detail fetch of \<open>m3\<close> rejects.\<close>

definition rejecting_services :: services where
  "rejecting_services =
     (demo_services ''fyi'')
       \<lparr>messages_get :=
          (\<lambda>h r. case r of
                    GetMessage t i \<Rightarrow>
                      if i = ''m3'' then Rejected (TypeError ''fetch failed'')
                      else Ok (demo_detail i)
                  | _ \<Rightarrow> NotOk ''bad request'')\<rparr>"


definition demo_payload :: ProcessingResult where
  "demo_payload =
     \<lparr>ProcessingResult.total = 2, ProcessingResult.processed = 1,
      ProcessingResult.skipped = 0, ProcessingResult.errors = 1,
      results = [(demo_email ''m1'', ''FYI'')], nextPageToken = None\<rparr>"

text \<open>
  A batch processor scripted by cursor: the first page is followed by pages \<open>A\<close> and
  \<open>B\<close>, and page \<open>B\<close> is the last.
\<close>

definition demo_batch :: "string \<Rightarrow> nat \<Rightarrow> string option \<Rightarrow> ProcessingResult" where
  "demo_batch i n next =
     \<lparr>ProcessingResult.total = n + 1, ProcessingResult.processed = 1,
      ProcessingResult.skipped = 0, ProcessingResult.errors = n,
      results = [(demo_email i, ''FYI'')], nextPageToken = next\<rparr>"

definition scripted_invoke ::
  "(string \<times> string \<times> string option) list \<Rightarrow> (string \<times> string \<times> string option) \<Rightarrow> invoke_reply" where
  "scripted_invoke h args =
     (case snd (snd args) of
        None \<Rightarrow> Data (demo_batch ''m1'' 0 (Some ''A''))
      | Some p \<Rightarrow>
          if p = ''A'' then Data (demo_batch ''m2'' 1 (Some ''B''))
          else if p = ''B'' then Data (demo_batch ''m3'' 2 None)
          else FnError ''unknown page token'')"

definition demo_env :: "(phase \<Rightarrow> bool) \<Rightarrow> client_env" where
  "demo_env stops =
     \<lparr>provider_token = Some ''tok'', invoke = scripted_invoke, stop_clicked = stops\<rparr>"

definition idle_dashboard :: dashboard where
  "idle_dashboard =
     \<lparr>processing = False, processingAll = False, result = None, totalStats = None,
      currentBatch = 0, error = None, currentSection = ''inbox'',
      stopRequestedRef = False, invocations = []\<rparr>"

text \<open>Stop patterns: never pressed, or pressed during one given phase.\<close>

definition no_stop :: "phase \<Rightarrow> bool" where
  "no_stop p = False"


text \<open>The label cache after the first batch of the scenario.\<close>

definition demo_cache :: "gmail_label list" where
  "demo_cache = [\<lparr>label_id = ''INBOX'', label_name = ''INBOX''\<rparr>,
                 \<lparr>label_id = ''Label_1'', label_name = ''FYI''\<rparr>]"

text \<open>A provider effect for modify requests: drop what is listed for removal, add the rest.\<close>

definition demo_effect :: "(string \<times> string list) list \<Rightarrow> string list \<Rightarrow> string list" where
  "demo_effect body ls =
     filter (\<lambda>l. l \<notin> set (removeLabelIds_of body)) ls @ addLabelIds_of body"

section \<open>Facts about the category model\<close>

lemma ascii_toUpperCase_char_not_lower: "\<not> is_lower_ascii (ascii_toUpperCase_char c)"
  by (auto simp: ascii_toUpperCase_char_def is_lower_ascii_def Let_def)

lemma ascii_toUpperCase_no_lower: "c \<in> set (ascii_toUpperCase s) \<Longrightarrow> \<not> is_lower_ascii c"
  by (auto simp: ascii_toUpperCase_def ascii_toUpperCase_char_not_lower)

lemma prototype_key_has_lower:
  "k \<in> set Object_prototype_keys \<Longrightarrow> \<exists>c \<in> set k. is_lower_ascii c"
  by (auto simp: Object_prototype_keys_def is_lower_ascii_def)

lemma no_lower_not_prototype_key:
  "\<forall>c \<in> set u. \<not> is_lower_ascii c \<Longrightarrow> u \<notin> set Object_prototype_keys"
  using prototype_key_has_lower by blast

lemma map_of_LABEL_MAP_None:
  "k \<notin> set EmailLabel_values \<Longrightarrow> map_of LABEL_MAP k = None"
  by (simp add: LABEL_MAP_def EmailLabel_values_def)

lemma map_of_LABEL_MAP_Some:
  "k \<in> set EmailLabel_values \<Longrightarrow> \<exists>v. map_of LABEL_MAP k = Some v \<and> v \<noteq> []"
  by (auto simp: LABEL_MAP_def EmailLabel_values_def)

lemma validate_upper:
  assumes "\<forall>c \<in> set u. \<not> is_lower_ascii c"
  shows "validate (Some u) = (if u \<in> set EmailLabel_values then u else ''FYI'')"
proof (cases "u \<in> set EmailLabel_values")
  case True
  then obtain v where "map_of LABEL_MAP u = Some v" "v \<noteq> []"
    using map_of_LABEL_MAP_Some by blast
  with True show ?thesis
    by (simp add: validate_def property_truthy_def)
next
  case False
  then have "map_of LABEL_MAP u = None"
    by (rule map_of_LABEL_MAP_None)
  with False show ?thesis
    by (simp add: validate_def property_truthy_def no_lower_not_prototype_key[OF assms])
qed

section \<open>How the process state evolves\<close>

lemma steps_refl: "steps w w"
  by (auto simp: steps_def split: option.splits)

lemma steps_trans: "steps w1 w2 \<Longrightarrow> steps w2 w3 \<Longrightarrow> steps w1 w3"
  unfolding steps_def
  apply (cases "labelCache w1")
   apply (auto split: option.splits)[1]
  apply (auto split: option.splits)
  done

lemma steps_send:
  "add_only r \<Longrightarrow> \<not> is_ListLabels r \<Longrightarrow> steps w (send r w)"
  by (auto simp: steps_def send_def split: option.splits)

lemma add_only_simps:
  "add_only (ListMessages t q n pt)" "add_only (GetMessage t i)" "add_only (ClaudeMessages k md n pr)"
  "add_only (ListLabels t)" "add_only (CreateLabel t b)"
  "add_only (ModifyMessage t m (modify_body l))"
  by (simp_all add: add_only_def modify_body_def addLabelIds_of_def removeLabelIds_of_def)

lemma steps_classifyEmail: "steps w (snd (classifyEmail S e w))"
  by (auto simp: classifyEmail_def Let_def steps_refl claude_request_def is_ListLabels_def
      add_only_simps intro!: steps_send split: option.splits response.splits)

lemma steps_getAllLabels: "steps w (snd (getAllLabels S tok w))"
  by (auto simp: getAllLabels_def Let_def steps_def send_def add_only_simps
      split: option.splits response.splits)

lemma getAllLabels_cache:
  "getAllLabels S tok w = (Inr ls, w1) \<Longrightarrow> labelCache w1 = Some ls"
  by (auto simp: getAllLabels_def Let_def send_def split: option.splits response.splits)

lemma steps_getOrCreateLabel: "steps w (snd (getOrCreateLabel S tok name w))"
proof (cases "getAllLabels S tok w")
  case (Pair r w1)
  have s1: "steps w w1" using steps_getAllLabels[of w S tok] Pair by simp
  show ?thesis
  proof (cases r)
    case (Inl e)
    with Pair s1 show ?thesis by (simp add: getOrCreateLabel_def)
  next
    case (Inr ls)
    with Pair have c: "labelCache w1 = Some ls" by (simp add: getAllLabels_cache)
    have "steps w1 (snd (getOrCreateLabel S tok name w))"
      using Pair Inr c
      by (auto simp: getOrCreateLabel_def Let_def steps_def send_def create_request_def
          add_only_simps is_ListLabels_def split: option.splits response.splits)
    with s1 show ?thesis by (rule steps_trans)
  qed
qed

lemma steps_applyLabel: "steps w (snd (applyLabel S tok m l w))"
  by (auto simp: applyLabel_def Let_def is_ListLabels_def add_only_simps
      intro!: steps_send split: response.splits)

lemma steps_processEmail: "steps w (snd (processEmail S tok e w))"
proof -
  obtain r1 w1 where a: "classifyEmail S e w = (r1, w1)" by (cases "classifyEmail S e w")
  have s1: "steps w w1" using steps_classifyEmail[of w S e] a by simp
  show ?thesis
  proof (cases r1)
    case (Inl x)
    with a s1 show ?thesis by (simp add: processEmail_def)
  next
    case (Inr label)
    show ?thesis
    proof (cases "map_of LABEL_MAP label")
      case None
      with a Inr s1 show ?thesis by (simp add: processEmail_def)
    next
      case (Some name)
      obtain r2 w2 where b: "getOrCreateLabel S tok name w1 = (r2, w2)"
        by (cases "getOrCreateLabel S tok name w1")
      have s2: "steps w w2" using steps_getOrCreateLabel[of w1 S tok name] b s1
        by (auto intro: steps_trans)
      show ?thesis
      proof (cases r2)
        case (Inl x)
        with a Inr Some b s2 show ?thesis by (simp add: processEmail_def)
      next
        case (Inr labelId)
        obtain r3 w3 where c: "applyLabel S tok (email_id e) labelId w2 = (r3, w3)"
          by (cases "applyLabel S tok (email_id e) labelId w2")
        have s3: "steps w w3" using steps_applyLabel[of w2 S tok "email_id e" labelId] c s2
          by (auto intro: steps_trans)
        with a \<open>r1 = Inr label\<close> Some b Inr c show ?thesis
          by (cases r3) (simp_all add: processEmail_def)
      qed
    qed
  qed
qed

lemma steps_process_loop: "steps w (snd (process_loop S tok es rs er sk w))"
proof (induction es arbitrary: rs er sk w)
  case Nil
  show ?case by (simp add: steps_refl)
next
  case (Cons e es)
  obtain r w1 where a: "processEmail S tok e w = (r, w1)" by (cases "processEmail S tok e w")
  have s1: "steps w w1" using steps_processEmail[of w S tok e] a by simp
  show ?case
    using a s1 Cons.IH[of w1] by (cases r) (auto intro: steps_trans)
qed

lemma steps_hydrate: "steps w (snd (hydrate S tok msgs es w))"
proof (induction msgs arbitrary: es w)
  case Nil
  show ?case by (simp add: steps_refl)
next
  case (Cons m ms)
  have s1: "steps w (send (GetMessage tok m) w)"
    by (rule steps_send) (simp_all add: add_only_simps is_ListLabels_def)
  show ?case
    using s1 Cons.IH[of "send (GetMessage tok m) w"]
    by (auto simp: Let_def intro: steps_trans split: response.splits)
qed

lemma steps_fetchEmails: "steps w (snd (fetchEmails S tok sec pt w))"
proof -
  let ?w1 = "send (list_request tok sec pt) w"
  have s1: "steps w ?w1"
    by (rule steps_send) (simp_all add: list_request_def add_only_simps is_ListLabels_def)
  show ?thesis
  proof (cases "messages_list S (log w) (list_request tok sec pt)")
    case (Rejected e)
    with s1 show ?thesis by (simp add: fetchEmails_def Let_def)
  next
    case (NotOk err)
    with s1 show ?thesis by (simp add: fetchEmails_def Let_def)
  next
    case (Ok listData)
    let ?msgs = "case list_messages listData of None \<Rightarrow> [] | Some ms \<Rightarrow> ms"
    obtain r w2 where h: "hydrate S tok ?msgs [] ?w1 = (r, w2)"
      by (cases "hydrate S tok ?msgs [] ?w1")
    have "steps ?w1 w2" using steps_hydrate[of ?w1 S tok ?msgs "[]"] h by simp
    with s1 have "steps w w2" by (rule steps_trans)
    with Ok h show ?thesis
      by (cases r) (simp_all add: fetchEmails_def Let_def)
  qed
qed

lemma steps_serve: "steps w (snd (serve S req w))"
proof -
  have loop: "steps w (snd (process_loop S tok es [] 0 0 w1))"
    if "fetchEmails S tok sec pt w = (r, w1)" for tok es sec pt r w1
  proof -
    have "steps w w1" using steps_fetchEmails[of w S tok sec pt] that by simp
    then show ?thesis using steps_process_loop by (rule steps_trans)
  qed
  show ?thesis
  proof (cases "http_method req = ''OPTIONS''")
    case True
    then show ?thesis by (simp add: serve_def steps_refl)
  next
    case False
    show ?thesis
    proof (cases "http_body req")
      case (Inl msg)
      with False show ?thesis by (simp add: serve_def steps_refl)
    next
      case (Inr body)
      show ?thesis
      proof (cases "truthy_token (accessToken body)")
        case None
        with False Inr show ?thesis by (simp add: serve_def steps_refl)
      next
        case (Some tok)
        let ?sec = "case body_section body of None \<Rightarrow> ''all'' | Some s \<Rightarrow> s"
        obtain r w1 where f: "fetchEmails S tok ?sec (pageToken body) w = (r, w1)"
          by (cases "fetchEmails S tok ?sec (pageToken body) w")
        show ?thesis
        proof (cases r)
          case (Inl e)
          have "steps w w1" using steps_fetchEmails[of w S tok ?sec "pageToken body"] f by simp
          with False Inr Some f Inl show ?thesis by (simp add: serve_def)
        next
          case (Inr page)
          obtain emails cursor where p: "page = (emails, cursor)" by (cases page)
          have "steps w (snd (process_loop S tok emails [] 0 0 w1))" using f by (rule loop)
          with False \<open>http_body req = Inr body\<close> Some f Inr p show ?thesis
            by (simp add: serve_def case_prod_beta)
        qed
      qed
    qed
  qed
qed

section \<open>Each loop as a function of its trace\<close>

lemma length_message_outcomes: "length (message_outcomes S tok es w) = length es"
  by (induction es arbitrary: w) (auto split: prod.splits)

lemma process_loop_trace:
  "fst (process_loop S tok es rs er sk w) =
     (rs @ labelled es (message_outcomes S tok es w),
      er + length (filter isl (message_outcomes S tok es w)), sk)"
proof (induction es arbitrary: rs er w)
  case Nil
  show ?case by (simp add: labelled_def)
next
  case (Cons e es)
  obtain r w1 where a: "processEmail S tok e w = (r, w1)" by (cases "processEmail S tok e w")
  show ?case
  proof (cases r)
    case (Inl x)
    with a Cons.IH[of rs "er + 1" w1] show ?thesis by (simp add: labelled_def)
  next
    case (Inr label)
    with a Cons.IH[of "rs @ [(e, label)]" er w1] show ?thesis by (simp add: labelled_def)
  qed
qed

lemma length_labelled:
  "length es = length outs \<Longrightarrow> length (labelled es outs) + length (filter isl outs) = length es"
proof (induction es arbitrary: outs)
  case Nil
  then show ?case by (simp add: labelled_def)
next
  case (Cons e es)
  then obtain r rest where o: "outs = r # rest" by (cases outs) auto
  with Cons.prems have "length es = length rest" by simp
  from Cons.IH[OF this] o show ?case
    by (cases r) (simp_all add: labelled_def)
qed

lemma labelled_subset: "fst ` set (labelled es outs) \<subseteq> set es"
  by (auto simp: labelled_def dest: set_zip_leftD split: sum.splits)

lemma hydrate_trace:
  "fst (hydrate S tok msgs es w) =
     (case first_rejected (detail_replies S tok msgs w) of
        Some e \<Rightarrow> Inl e
      | None \<Rightarrow> Inr (es @ hydrated S (detail_replies S tok msgs w)))"
proof (induction msgs arbitrary: es w)
  case Nil
  show ?case by (simp add: hydrated_def)
next
  case (Cons m ms)
  show ?case
    using Cons.IH[of es "send (GetMessage tok m) w"]
          Cons.IH[of "es @ [email_of_detail S d]" "send (GetMessage tok m) w" for d]
    by (auto simp: Let_def hydrated_def split: response.splits option.splits)
qed

lemma length_detail_replies: "length (detail_replies S tok msgs w) = length msgs"
  by (induction msgs arbitrary: w) auto

lemma length_hydrated:
  "first_rejected replies = None \<Longrightarrow>
     length (hydrated S replies) + failed_hydrations replies = length replies"
  by (induction replies) (auto simp: hydrated_def failed_hydrations_def split: response.splits)

lemma serve_success:
  assumes "http_method req \<noteq> ''OPTIONS''" and "http_body req = Inr body"
    and "truthy_token (accessToken body) = Some tok"
    and "fetchEmails S tok (case body_section body of None \<Rightarrow> ''all'' | Some s \<Rightarrow> s)
           (pageToken body) w = (Inr (emails, cursor), w1)"
  shows "fst (serve S req w) =
     Success \<lparr>ProcessingResult.total = length emails,
              ProcessingResult.processed =
                length (labelled emails (message_outcomes S tok emails w1)),
              ProcessingResult.skipped = 0,
              ProcessingResult.errors = length (filter isl (message_outcomes S tok emails w1)),
              results = labelled emails (message_outcomes S tok emails w1),
              nextPageToken = cursor\<rparr>"
proof -
  obtain rs er sk w2 where l: "process_loop S tok emails [] 0 0 w1 = ((rs, er, sk), w2)"
    by (cases "process_loop S tok emails [] 0 0 w1") auto
  from process_loop_trace[of S tok emails "[]" 0 0 w1] l
  have "rs = labelled emails (message_outcomes S tok emails w1)"
    "er = length (filter isl (message_outcomes S tok emails w1))" "sk = 0"
    by simp_all
  with assms l show ?thesis by (simp add: serve_def)
qed

lemma fetchEmails_trace:
  assumes "messages_list S (log w) (list_request tok sec pt) = Ok listData"
    and "replies = detail_replies S tok
                     (case list_messages listData of None \<Rightarrow> [] | Some ms \<Rightarrow> ms)
                     (send (list_request tok sec pt) w)"
  shows "fst (fetchEmails S tok sec pt w) =
     (case first_rejected replies of
        Some e \<Rightarrow> Inl e
      | None \<Rightarrow> Inr (hydrated S replies, list_nextPageToken listData))"
proof -
  let ?msgs = "case list_messages listData of None \<Rightarrow> [] | Some ms \<Rightarrow> ms"
  let ?w1 = "send (list_request tok sec pt) w"
  obtain r w2 where h: "hydrate S tok ?msgs [] ?w1 = (r, w2)"
    by (cases "hydrate S tok ?msgs [] ?w1")
  from hydrate_trace[of S tok ?msgs "[]" ?w1] h
  have "r = (case first_rejected replies of Some e \<Rightarrow> Inl e | None \<Rightarrow> Inr (hydrated S replies))"
    unfolding assms(2) by (simp split: option.splits)
  with assms(1) h show ?thesis
    by (cases "first_rejected replies") (simp_all add: fetchEmails_def Let_def)
qed

lemma skipped_loop: "snd (snd (fst (process_loop S tok es rs er sk w))) = sk"
  by (simp add: process_loop_trace)

lemma serve_Success_cases:
  assumes "fst (serve S req w) = Success r"
  obtains body tok emails cursor w1 where
    "http_method req \<noteq> ''OPTIONS''" "http_body req = Inr body"
    "truthy_token (accessToken body) = Some tok"
    "fetchEmails S tok (case body_section body of None \<Rightarrow> ''all'' | Some s \<Rightarrow> s)
           (pageToken body) w = (Inr (emails, cursor), w1)"
proof -
  from assms have m: "http_method req \<noteq> ''OPTIONS''"
    by (auto simp: serve_def)
  from assms m obtain body where b: "http_body req = Inr body"
    by (cases "http_body req") (auto simp: serve_def)
  from assms m b obtain tok where t: "truthy_token (accessToken body) = Some tok"
    by (cases "truthy_token (accessToken body)") (auto simp: serve_def)
  let ?f = "fetchEmails S tok (case body_section body of None \<Rightarrow> ''all'' | Some s \<Rightarrow> s)
           (pageToken body) w"
  obtain x w1 where f: "?f = (x, w1)" by (cases ?f)
  from assms m b t f obtain page where "x = Inr page"
    by (cases x) (auto simp: serve_def)
  with f have "?f = (Inr (fst page, snd page), w1)" by simp
  with m b t show ?thesis using that by blast
qed

section \<open>Facts about the label resolver\<close>


lemma requests_during_append: "log w' = log w @ d \<Longrightarrow> requests_during w w' = d"
  by (simp add: requests_during_def)


lemma getAllLabels_hit: "labelCache w = Some c \<Longrightarrow> getAllLabels S tok w = (Inr c, w)"
  by (simp add: getAllLabels_def)



section \<open>Facts about the page fetch and the modify request\<close>

lemma hydrate_log: "\<exists>d. log (snd (hydrate S tok msgs es w)) = log w @ d"
proof (induction msgs arbitrary: es w)
  case Nil
  show ?case by simp
next
  case (Cons m ms)
  from Cons.IH[of _ "send (GetMessage tok m) w"]
  show ?case by (auto simp: Let_def send_def split: response.splits)
qed

lemma fetchEmails_first_request:
  "\<exists>d. log (snd (fetchEmails S tok sec pt w)) = log w @ list_request tok sec pt # d"
proof (cases "messages_list S (log w) (list_request tok sec pt)")
  case (Rejected e)
  then show ?thesis by (simp add: fetchEmails_def Let_def send_def)
next
  case (NotOk err)
  then show ?thesis by (simp add: fetchEmails_def Let_def send_def)
next
  case (Ok listData)
  let ?msgs = "case list_messages listData of None \<Rightarrow> [] | Some ms \<Rightarrow> ms"
  let ?w1 = "send (list_request tok sec pt) w"
  obtain r w2 where h: "hydrate S tok ?msgs [] ?w1 = (r, w2)"
    by (cases "hydrate S tok ?msgs [] ?w1")
  from hydrate_log[of S tok ?msgs "[]" ?w1] h
  obtain d where "log w2 = log w @ list_request tok sec pt # d"
    by (auto simp: send_def)
  with Ok h show ?thesis
    by (cases r) (simp_all add: fetchEmails_def Let_def)
qed

lemma applyLabel_log:
  "log (snd (applyLabel S tok mid lid w)) = log w @ [ModifyMessage tok mid (modify_body lid)]"
  by (simp add: applyLabel_def Let_def send_def split: response.splits)

lemma serve_add_only: "r \<in> set (requests_during w (snd (serve S req w))) \<Longrightarrow> add_only r"
  using steps_serve[of w S req] by (auto simp: steps_def requests_during_def)

section \<open>Facts about the label cache\<close>

lemma list_label_calls_steps:
  "steps w w' \<Longrightarrow> labelCache w = Some c \<Longrightarrow>
     list_label_calls (requests_during w w') = 0 \<and> (\<exists>extra. labelCache w' = Some (c @ extra))"
  by (auto simp: steps_def requests_during_def list_label_calls_def)

lemma getAllLabels_miss:
  assumes "labelCache w = None"
  shows "requests_during w (snd (getAllLabels S tok w)) = [ListLabels tok]"
    and "labels_list S (log w) (ListLabels tok) = Rejected e \<Longrightarrow>
           fst (getAllLabels S tok w) = Inl e
           \<and> labelCache (snd (getAllLabels S tok w)) = None"
    and "labels_list S (log w) (ListLabels tok) = NotOk err \<Longrightarrow>
           fst (getAllLabels S tok w) = Inl (Error ''Failed to fetch labels'')
           \<and> labelCache (snd (getAllLabels S tok w)) = None"
    and "labels_list S (log w) (ListLabels tok) = Ok data \<Longrightarrow>
           fst (getAllLabels S tok w) = Inr (case data of None \<Rightarrow> [] | Some ls \<Rightarrow> ls)
           \<and> labelCache (snd (getAllLabels S tok w)) = Some (case data of None \<Rightarrow> [] | Some ls \<Rightarrow> ls)"
  using assms
  by (auto simp: getAllLabels_def Let_def send_def requests_during_def split: response.splits)

lemma truthy_token_Some: "s \<noteq> [] \<Longrightarrow> truthy_token (Some s) = Some s"
  by (simp add: truthy_token_def)

section \<open>Facts about the orchestrator\<close>



section \<open>The scenarios, evaluated\<close>

lemma demo_run: "fst (serve (demo_services ''fyi'') demo_request fresh_process) = Success demo_payload"
  by code_simp

lemma demo_first_cache:
  "labelCache (snd (serve (demo_services ''fyi'') demo_request fresh_process)) = Some demo_cache"
  by code_simp

lemma demo_first_lists:
  "list_label_calls (requests_during fresh_process
      (snd (serve (demo_services ''fyi'') demo_request fresh_process))) = 1"
  by code_simp

lemma demo_second_run:
  "fst (serve (demo_services ''fyi'') demo_request
         (snd (serve (demo_services ''fyi'') demo_request fresh_process))) = Success demo_payload"
  by code_simp

lemma demo_second_lists:
  "list_label_calls
     (requests_during (snd (serve (demo_services ''fyi'') demo_request fresh_process))
        (snd (serve (demo_services ''fyi'') demo_request
               (snd (serve (demo_services ''fyi'') demo_request fresh_process))))) = 0"
  by code_simp

lemma demo_modify_sent: "ModifyMessage ''tok'' ''m1'' [(''addLabelIds'', [''Label_1''])]
       \<in> set (requests_during fresh_process
                (snd (serve (demo_services ''fyi'') demo_request fresh_process)))"
    by code_simp

lemma q_inbox: "baseQuery ''inbox'' = ''in:inbox -label:\"To Reply\" -label:\"Awaiting Reply\" -label:\"FYI\" -label:\"Actioned\" -label:\"Newsletter\" -label:\"Marketing\" -label:\"Calendar\" -label:\"Receipt\" -label:\"Notification\" -label:\"Cold Email\"''"
  by code_simp

lemma q_all: "baseQuery ''all'' = ''-in:spam -in:trash -label:\"To Reply\" -label:\"Awaiting Reply\" -label:\"FYI\" -label:\"Actioned\" -label:\"Newsletter\" -label:\"Marketing\" -label:\"Calendar\" -label:\"Receipt\" -label:\"Notification\" -label:\"Cold Email\"''"
  by code_simp

lemma q_inbox_1: "count_occurrences ''in:inbox'' (baseQuery ''inbox'') = 1" by code_simp
lemma q_inbox_2:
  "map (\<lambda>c. count_occurrences c (baseQuery ''inbox'')) managed_exclusions = replicate 10 1"
  by code_simp
lemma q_inbox_3: "count_occurrences ''-label:'' (baseQuery ''inbox'') = 10" by code_simp
lemma q_inbox_4: "count_occurrences ''in:spam'' (baseQuery ''inbox'') = 0" by code_simp
lemma q_inbox_5: "count_occurrences ''in:trash'' (baseQuery ''inbox'') = 0" by code_simp
lemma q_all_1: "count_occurrences ''-in:spam -in:trash'' (baseQuery ''all'') = 1" by code_simp
lemma q_all_2:
  "map (\<lambda>c. count_occurrences c (baseQuery ''all'')) managed_exclusions = replicate 10 1"
  by code_simp
lemma q_all_3: "count_occurrences ''-label:'' (baseQuery ''all'') = 10" by code_simp
lemma q_all_4: "count_occurrences ''in:inbox'' (baseQuery ''all'') = 0" by code_simp


lemma rejecting_run:
  "fst (serve rejecting_services demo_request fresh_process) = Failure ''fetch failed''"
  by code_simp


section \<open>Verified properties\<close>

text \<open>
  C1. When the classification call succeeds and its first block carries a reply text, the
  classifier returns the trimmed, upper-cased reply if that is one of the ten category
  names, and the default category FYI otherwise. Trimming and upper-casing are the
  runtime's; of upper-casing the proof uses that its result holds no lower-case ASCII
  letter, which is why no inherited property of the map can pass the lookup.
\<close>

theorem classifyEmail_validates_reply:
  assumes "\<forall>s. \<forall>c \<in> set (toUpperCase S s). \<not> is_lower_ascii c"
    and "ANTHROPIC_API_KEY S = Some key" and "key \<noteq> []"
    and "claude S (log w) (claude_request key email) = Ok (Some (Some reply # blocks))"
  shows "fst (classifyEmail S email w) =
     Inr (if toUpperCase S (trim S reply) \<in> set EmailLabel_values
          then toUpperCase S (trim S reply) else ''FYI'')"
proof -
  have "\<forall>c \<in> set (toUpperCase S (trim S reply)). \<not> is_lower_ascii c"
    using assms(1) by blast
  from validate_upper[OF this] assms(2-4) show ?thesis
    by (simp add: classifyEmail_def Let_def classification_def)
qed

theorem classifyEmail_validates_reply_witness:
  "fst (classifyEmail (demo_services '' I think this is spam'') (demo_email ''m1'') fresh_process)
     = Inr ''FYI''
   \<and> fst (classifyEmail (demo_services '' cold_email  '') (demo_email ''m1'') fresh_process)
     = Inr ''COLD_EMAIL''"
proof -
  have up: "\<forall>s. \<forall>c \<in> set (toUpperCase (demo_services r) s). \<not> is_lower_ascii c" for r
    by (simp add: demo_services_def ascii_toUpperCase_no_lower)
  have k: "ANTHROPIC_API_KEY (demo_services r) = Some ''sk-test''" "''sk-test'' \<noteq> []" for r
    by (simp_all add: demo_services_def)
  have c: "claude (demo_services r) (log fresh_process) (claude_request ''sk-test'' e)
             = Ok (Some (Some r # []))" for r e
    by (simp add: demo_services_def)
  have f: "trim (demo_services r) = ascii_trim" "toUpperCase (demo_services r) = ascii_toUpperCase"
    for r by (simp_all add: demo_services_def)
  have u1: "ascii_toUpperCase (ascii_trim '' I think this is spam'') = ''I THINK THIS IS SPAM''"
    by code_simp
  have u2: "ascii_toUpperCase (ascii_trim '' cold_email  '') = ''COLD_EMAIL''"
    by code_simp
  from classifyEmail_validates_reply[OF up k c, of "'' I think this is spam''"]
       classifyEmail_validates_reply[OF up k c, of "'' cold_email  ''"]
  show ?thesis
    by (simp add: f u1 u2 EmailLabel_values_def)
qed




text \<open>
  C3. When the page fetch succeeds with N hydrated messages and K of them throw during
  classify, resolve or apply, the handler answers with a success payload whose error
  count is K, whose processed count is N - K, and whose results are exactly the
  messages that did not throw, in order, with their categories.
\<close>

theorem batch_accounting:
  assumes "http_method req \<noteq> ''OPTIONS''" and "http_body req = Inr body"
    and "truthy_token (accessToken body) = Some tok"
    and "fetchEmails S tok (case body_section body of None \<Rightarrow> ''all'' | Some s \<Rightarrow> s)
           (pageToken body) w = (Inr (emails, cursor), w1)"
    and "outs = message_outcomes S tok emails w1"
    and "K = length (filter isl outs)"
  shows "K \<le> length emails
     \<and> length (labelled emails outs) = length emails - K
     \<and> fst (serve S req w) =
         Success \<lparr>ProcessingResult.total = length emails,
                  ProcessingResult.processed = length emails - K,
                  ProcessingResult.skipped = 0,
                  ProcessingResult.errors = K,
                  results = labelled emails outs,
                  nextPageToken = cursor\<rparr>"
proof -
  have len: "length emails = length outs"
    using assms(5) by (simp add: length_message_outcomes)
  from length_labelled[OF len] assms(6)
  have a: "K \<le> length emails" and b: "length (labelled emails outs) = length emails - K"
    by simp_all
  from serve_success[OF assms(1-4)] assms(5,6) b
  show ?thesis using a by simp
qed

theorem batch_accounting_witness:
  "(1::nat) \<le> length [demo_email ''m1'', demo_email ''m2'']
   \<and> fst (serve (demo_services ''fyi'') demo_request fresh_process) =
       Success \<lparr>ProcessingResult.total = 2, ProcessingResult.processed = 1,
                ProcessingResult.skipped = 0, ProcessingResult.errors = 1,
                results = [(demo_email ''m1'', ''FYI'')], nextPageToken = None\<rparr>"
proof -
  let ?S = "demo_services ''fyi''"
  let ?body = "\<lparr>accessToken = Some ''tok'', pageToken = None, body_section = Some ''inbox''\<rparr>"
  let ?emails = "[demo_email ''m1'', demo_email ''m2'']"
  let ?f = "fetchEmails ?S ''tok'' ''inbox'' None fresh_process"
  have h1: "http_method demo_request \<noteq> ''OPTIONS''" by (simp add: demo_request_def)
  have h2: "http_body demo_request = Inr ?body" by (simp add: demo_request_def)
  have h3: "truthy_token (accessToken ?body) = Some ''tok''" by (simp add: truthy_token_def)
  have "fst ?f = Inr (?emails, None)" by code_simp
  then have "?f = (Inr (?emails, None), snd ?f)" by (metis prod.collapse)
  then have h4: "fetchEmails ?S ''tok'' (case body_section ?body of None \<Rightarrow> ''all'' | Some s \<Rightarrow> s)
      (pageToken ?body) fresh_process = (Inr (?emails, None), snd ?f)" by simp
  have k: "length (filter isl (message_outcomes ?S ''tok'' ?emails (snd ?f))) = 1"
    by code_simp
  have l: "labelled ?emails (message_outcomes ?S ''tok'' ?emails (snd ?f))
             = [(demo_email ''m1'', ''FYI'')]"
    by code_simp
  note r = batch_accounting[OF h1 h2 h3 h4 refl refl, unfolded k l]
  from r show ?thesis by simp
qed

text \<open>
  C4. The first request of a page fetch is the message listing with the query built for
  the section. For the inbox the query is \<open>in:inbox\<close> followed by the clause
  \<open>-label:"name"\<close> of each of the ten label names: it contains \<open>in:inbox\<close> once, each
  of the ten clauses once, ten exclusion clauses in all, and neither \<open>in:spam\<close> nor
  \<open>in:trash\<close>. For all mail it is \<open>-in:spam -in:trash\<close> followed by the same clauses,
  and contains no \<open>in:inbox\<close>.
\<close>

theorem query_construction:
  "hd (requests_during w (snd (fetchEmails S tok sec pt w)))
     = ListMessages tok (baseQuery sec) 50 (truthy_token pt)
   \<and> getOurLabelNames = [''To Reply'', ''Awaiting Reply'', ''FYI'', ''Actioned'', ''Newsletter'', ''Marketing'', ''Calendar'', ''Receipt'', ''Notification'', ''Cold Email'']
   \<and> baseQuery ''inbox'' = ''in:inbox -label:\"To Reply\" -label:\"Awaiting Reply\" -label:\"FYI\" -label:\"Actioned\" -label:\"Newsletter\" -label:\"Marketing\" -label:\"Calendar\" -label:\"Receipt\" -label:\"Notification\" -label:\"Cold Email\"''
   \<and> count_occurrences ''in:inbox'' (baseQuery ''inbox'') = 1
   \<and> map (\<lambda>c. count_occurrences c (baseQuery ''inbox'')) managed_exclusions = replicate 10 1
   \<and> count_occurrences ''-label:'' (baseQuery ''inbox'') = 10
   \<and> count_occurrences ''in:spam'' (baseQuery ''inbox'') = 0
   \<and> count_occurrences ''in:trash'' (baseQuery ''inbox'') = 0
   \<and> baseQuery ''all'' = ''-in:spam -in:trash -label:\"To Reply\" -label:\"Awaiting Reply\" -label:\"FYI\" -label:\"Actioned\" -label:\"Newsletter\" -label:\"Marketing\" -label:\"Calendar\" -label:\"Receipt\" -label:\"Notification\" -label:\"Cold Email\"''
   \<and> count_occurrences ''-in:spam -in:trash'' (baseQuery ''all'') = 1
   \<and> map (\<lambda>c. count_occurrences c (baseQuery ''all'')) managed_exclusions = replicate 10 1
   \<and> count_occurrences ''-label:'' (baseQuery ''all'') = 10
   \<and> count_occurrences ''in:inbox'' (baseQuery ''all'') = 0"
proof -
  obtain d where "log (snd (fetchEmails S tok sec pt w)) = log w @ list_request tok sec pt # d"
    using fetchEmails_first_request by blast
  then have a: "hd (requests_during w (snd (fetchEmails S tok sec pt w)))
     = ListMessages tok (baseQuery sec) 50 (truthy_token pt)"
    by (simp add: requests_during_def list_request_def)
  have b: "getOurLabelNames = [''To Reply'', ''Awaiting Reply'', ''FYI'', ''Actioned'', ''Newsletter'', ''Marketing'', ''Calendar'', ''Receipt'', ''Notification'', ''Cold Email'']"
    by (simp add: getOurLabelNames_def Object_values_def LABEL_MAP_def)
  show ?thesis
    using a b q_inbox q_all q_inbox_1 q_inbox_2 q_inbox_3 q_inbox_4 q_inbox_5
      q_all_1 q_all_2 q_all_3 q_all_4
    by (intro conjI)
qed

text \<open>
  C5, as stated, fails: only a detail fetch answered with a non-success status is
  skipped. One that rejects throws out of the page fetch, and the handler answers the
  whole batch with an error payload.
\<close>

theorem rejected_hydration_fails_batch:
  "fst (serve rejecting_services demo_request fresh_process) = Failure ''fetch failed''"
  using rejecting_run .

text \<open>
  C5, amended. Let the listing succeed. When no detail fetch of the page rejects, the
  payload's total is the number of listed messages minus the detail fetches answered
  with a non-success status, its error count is the number of hydrated messages that
  threw during processing, and its results only hold hydrated messages: a message whose
  detail fetch has a non-success status is counted nowhere. When a detail fetch rejects,
  the handler answers with the error payload of what was thrown.
\<close>

theorem hydration_failures_dropped:
  assumes "http_method req \<noteq> ''OPTIONS''" and "http_body req = Inr body"
    and "truthy_token (accessToken body) = Some tok"
    and "sec = (case body_section body of None \<Rightarrow> ''all'' | Some s \<Rightarrow> s)"
    and "messages_list S (log w) (list_request tok sec (pageToken body)) = Ok listData"
    and "msgs = (case list_messages listData of None \<Rightarrow> [] | Some ms \<Rightarrow> ms)"
    and "replies = detail_replies S tok msgs (send (list_request tok sec (pageToken body)) w)"
    and "outs = message_outcomes S tok (hydrated S replies)
                  (snd (fetchEmails S tok sec (pageToken body) w))"
  shows "(first_rejected replies = None \<longrightarrow>
            length (hydrated S replies) = length msgs - failed_hydrations replies
            \<and> fst ` set (labelled (hydrated S replies) outs) \<subseteq> set (hydrated S replies)
            \<and> length (filter isl outs) \<le> length (hydrated S replies)
            \<and> fst (serve S req w) =
                Success \<lparr>ProcessingResult.total = length msgs - failed_hydrations replies,
                         ProcessingResult.processed = length (labelled (hydrated S replies) outs),
                         ProcessingResult.skipped = 0,
                         ProcessingResult.errors = length (filter isl outs),
                         results = labelled (hydrated S replies) outs,
                         nextPageToken = list_nextPageToken listData\<rparr>)
     \<and> (\<forall>e. first_rejected replies = Some e \<longrightarrow> fst (serve S req w) = Failure (message e))"
proof -
  let ?f = "fetchEmails S tok sec (pageToken body) w"
  have tr: "fst ?f = (case first_rejected replies of
        Some e \<Rightarrow> Inl e
      | None \<Rightarrow> Inr (hydrated S replies, list_nextPageToken listData))"
    by (rule fetchEmails_trace[OF assms(5) assms(7)[unfolded assms(6)]])
  have ok: ?thesis if none: "first_rejected replies = None"
  proof -
    have n: "length (hydrated S replies) = length msgs - failed_hydrations replies"
      using length_hydrated[OF none, of S] assms(7) by (simp add: length_detail_replies)
    from tr none have "fst ?f = Inr (hydrated S replies, list_nextPageToken listData)" by simp
    then have f: "fetchEmails S tok (case body_section body of None \<Rightarrow> ''all'' | Some s \<Rightarrow> s)
        (pageToken body) w = (Inr (hydrated S replies, list_nextPageToken listData), snd ?f)"
      unfolding assms(4) by (metis prod.collapse)
    have len: "length (hydrated S replies) = length outs"
      using assms(8) by (simp add: length_message_outcomes)
    from length_labelled[OF len]
    have k: "length (filter isl outs) \<le> length (hydrated S replies)" by simp
    from serve_success[OF assms(1-3) f] assms(4,8) n
    have "fst (serve S req w) =
           Success \<lparr>ProcessingResult.total = length msgs - failed_hydrations replies,
                    ProcessingResult.processed = length (labelled (hydrated S replies) outs),
                    ProcessingResult.skipped = 0,
                    ProcessingResult.errors = length (filter isl outs),
                    results = labelled (hydrated S replies) outs,
                    nextPageToken = list_nextPageToken listData\<rparr>"
      by simp
    with n k labelled_subset[of "hydrated S replies" outs] none show ?thesis by simp
  qed
  have bad: ?thesis if some: "first_rejected replies = Some e" for e
  proof -
    from tr some have "fst ?f = Inl e" by simp
    then have "fetchEmails S tok (case body_section body of None \<Rightarrow> ''all'' | Some s \<Rightarrow> s)
        (pageToken body) w = (Inl e, snd ?f)"
      unfolding assms(4) by (metis prod.collapse)
    with assms(1-3) have "fst (serve S req w) = Failure (message e)"
      by (simp add: serve_def)
    with some show ?thesis by simp
  qed
  show ?thesis
    using ok bad by (cases "first_rejected replies") blast+
qed

theorem hydration_failures_dropped_witness:
  "failed_hydrations (detail_replies (demo_services ''fyi'') ''tok'' [''m1'', ''m2'', ''m3'']
        (send (list_request ''tok'' ''inbox'' None) fresh_process)) = 1
   \<and> hydrated (demo_services ''fyi'')
        (detail_replies (demo_services ''fyi'') ''tok'' [''m1'', ''m2'', ''m3'']
           (send (list_request ''tok'' ''inbox'' None) fresh_process))
      = [demo_email ''m1'', demo_email ''m2'']
   \<and> fst (serve (demo_services ''fyi'') demo_request fresh_process) = Success demo_payload
   \<and> first_rejected (detail_replies rejecting_services ''tok'' [''m1'', ''m2'', ''m3'']
        (send (list_request ''tok'' ''inbox'' None) fresh_process))
      = Some (TypeError ''fetch failed'')
   \<and> fst (serve rejecting_services demo_request fresh_process) = Failure ''fetch failed''"
proof -
  let ?S = "demo_services ''fyi''"
  let ?R = rejecting_services
  let ?body = "\<lparr>accessToken = Some ''tok'', pageToken = None, body_section = Some ''inbox''\<rparr>"
  let ?ld = "\<lparr>list_messages = Some [''m1'', ''m2'', ''m3''], list_nextPageToken = None\<rparr>"
  let ?w1 = "send (list_request ''tok'' ''inbox'' None) fresh_process"
  let ?replies = "detail_replies ?S ''tok'' [''m1'', ''m2'', ''m3''] ?w1"
  let ?rreplies = "detail_replies ?R ''tok'' [''m1'', ''m2'', ''m3''] ?w1"
  have h1: "http_method demo_request \<noteq> ''OPTIONS''" by (simp add: demo_request_def)
  have h2: "http_body demo_request = Inr ?body" by (simp add: demo_request_def)
  have h3: "truthy_token (accessToken ?body) = Some ''tok''" by (simp add: truthy_token_def)
  have h4: "''inbox'' = (case body_section ?body of None \<Rightarrow> ''all'' | Some s \<Rightarrow> s)" by simp
  have h5: "messages_list ?S (log fresh_process) (list_request ''tok'' ''inbox'' (pageToken ?body))
     = Ok ?ld" by (simp add: demo_services_def)
  have r5: "messages_list ?R (log fresh_process) (list_request ''tok'' ''inbox'' (pageToken ?body))
     = Ok ?ld" by (simp add: rejecting_services_def demo_services_def)
  have h6: "[''m1'', ''m2'', ''m3''] = (case list_messages ?ld of None \<Rightarrow> [] | Some ms \<Rightarrow> ms)"
    by simp
  have h7: "?replies = detail_replies ?S ''tok'' [''m1'', ''m2'', ''m3'']
        (send (list_request ''tok'' ''inbox'' (pageToken ?body)) fresh_process)" by simp
  have r7: "?rreplies = detail_replies ?R ''tok'' [''m1'', ''m2'', ''m3'']
        (send (list_request ''tok'' ''inbox'' (pageToken ?body)) fresh_process)" by simp
  have none: "first_rejected ?replies = None" by code_simp
  have some: "first_rejected ?rreplies = Some (TypeError ''fetch failed'')" by code_simp
  have f: "failed_hydrations ?replies = 1" by code_simp
  have hy: "hydrated ?S ?replies = [demo_email ''m1'', demo_email ''m2'']" by code_simp
  note t1 = hydration_failures_dropped[OF h1 h2 h3 h4 h5 h6 h7 refl, THEN conjunct1, rule_format, OF none]
  note t2 = hydration_failures_dropped[OF h1 h2 h3 h4 r5 h6 r7 refl, THEN conjunct2, rule_format, OF some]
  from t1 have "fst (serve ?S demo_request fresh_process) =
      Success \<lparr>ProcessingResult.total = length [''m1'', ''m2'', ''m3''] - failed_hydrations ?replies,
         ProcessingResult.processed = length (labelled (hydrated ?S ?replies)
            (message_outcomes ?S ''tok'' (hydrated ?S ?replies)
               (snd (fetchEmails ?S ''tok'' ''inbox'' (pageToken ?body) fresh_process)))),
         ProcessingResult.skipped = 0,
         ProcessingResult.errors = length (filter isl
            (message_outcomes ?S ''tok'' (hydrated ?S ?replies)
               (snd (fetchEmails ?S ''tok'' ''inbox'' (pageToken ?body) fresh_process)))),
         results = labelled (hydrated ?S ?replies)
            (message_outcomes ?S ''tok'' (hydrated ?S ?replies)
               (snd (fetchEmails ?S ''tok'' ''inbox'' (pageToken ?body) fresh_process))),
         nextPageToken = list_nextPageToken ?ld\<rparr>"
    by (elim conjE)
  with demo_run have a: "fst (serve ?S demo_request fresh_process) = Success demo_payload"
    by simp
  from t2 have b: "fst (serve ?R demo_request fresh_process) = Failure ''fetch failed''"
    by (simp add: message_def)
  from f hy a some b show ?thesis by (intro conjI)
qed

text \<open>
  C6, as stated, fails: a second run served by the same process finds the cache filled
  by the first one and labels its messages without listing the labels again.
\<close>

theorem fresh_run_reuses_cache:
  "labelCache fresh_process = None
   \<and> list_label_calls (requests_during fresh_process
        (snd (serve (demo_services ''fyi'') demo_request fresh_process))) = 1
   \<and> fst (serve (demo_services ''fyi'') demo_request
         (snd (serve (demo_services ''fyi'') demo_request fresh_process))) = Success demo_payload
   \<and> list_label_calls
       (requests_during (snd (serve (demo_services ''fyi'') demo_request fresh_process))
          (snd (serve (demo_services ''fyi'') demo_request
                 (snd (serve (demo_services ''fyi'') demo_request fresh_process))))) = 0"
  using demo_first_lists demo_second_run demo_second_lists
  by (simp add: fresh_process_def)

text \<open>
  C6, amended. With the cache set, a lookup returns the memoized list and sends nothing,
  and a whole invocation of the handler sends no label listing and only extends the
  cached list. With the cache unset, a lookup sends one label listing, and memoizes the
  answer if the call succeeded; a failed call leaves the cache unset.
\<close>

theorem labelCache_process_wide:
  "(labelCache w = Some c \<longrightarrow>
      getAllLabels S tok w = (Inr c, w)
      \<and> list_label_calls (requests_during w (snd (serve S req w))) = 0
      \<and> (\<exists>extra. labelCache (snd (serve S req w)) = Some (c @ extra)))
   \<and> (labelCache w = None \<longrightarrow>
        requests_during w (snd (getAllLabels S tok w)) = [ListLabels tok]
        \<and> (case labels_list S (log w) (ListLabels tok) of
             Rejected e \<Rightarrow>
               fst (getAllLabels S tok w) = Inl e
               \<and> labelCache (snd (getAllLabels S tok w)) = None
           | NotOk err \<Rightarrow>
               fst (getAllLabels S tok w) = Inl (Error ''Failed to fetch labels'')
               \<and> labelCache (snd (getAllLabels S tok w)) = None
           | Ok data \<Rightarrow>
               fst (getAllLabels S tok w) = Inr (case data of None \<Rightarrow> [] | Some ls \<Rightarrow> ls)
               \<and> labelCache (snd (getAllLabels S tok w))
                   = Some (case data of None \<Rightarrow> [] | Some ls \<Rightarrow> ls)))"
proof -
  have a: "labelCache w = Some c \<Longrightarrow>
      getAllLabels S tok w = (Inr c, w)
      \<and> list_label_calls (requests_during w (snd (serve S req w))) = 0
      \<and> (\<exists>extra. labelCache (snd (serve S req w)) = Some (c @ extra))"
    using list_label_calls_steps[OF steps_serve] by (simp add: getAllLabels_hit)
  have b: "labelCache w = None \<Longrightarrow>
        requests_during w (snd (getAllLabels S tok w)) = [ListLabels tok]
        \<and> (case labels_list S (log w) (ListLabels tok) of
             Rejected e \<Rightarrow>
               fst (getAllLabels S tok w) = Inl e
               \<and> labelCache (snd (getAllLabels S tok w)) = None
           | NotOk err \<Rightarrow>
               fst (getAllLabels S tok w) = Inl (Error ''Failed to fetch labels'')
               \<and> labelCache (snd (getAllLabels S tok w)) = None
           | Ok data \<Rightarrow>
               fst (getAllLabels S tok w) = Inr (case data of None \<Rightarrow> [] | Some ls \<Rightarrow> ls)
               \<and> labelCache (snd (getAllLabels S tok w))
                   = Some (case data of None \<Rightarrow> [] | Some ls \<Rightarrow> ls))"
    using getAllLabels_miss[of w S tok]
    by (cases "labels_list S (log w) (ListLabels tok)") simp_all
  from a b show ?thesis by blast
qed

theorem labelCache_process_wide_witness:
  "labelCache (snd (serve (demo_services ''fyi'') demo_request fresh_process)) = Some demo_cache
   \<and> getAllLabels (demo_services ''fyi'') ''tok''
        (snd (serve (demo_services ''fyi'') demo_request fresh_process))
      = (Inr demo_cache, snd (serve (demo_services ''fyi'') demo_request fresh_process))
   \<and> labelCache fresh_process = None
   \<and> requests_during fresh_process (snd (getAllLabels (demo_services ''fyi'') ''tok'' fresh_process))
      = [ListLabels ''tok'']"
proof -
  have n: "labelCache fresh_process = None" by (simp add: fresh_process_def)
  from labelCache_process_wide[of "snd (serve (demo_services ''fyi'') demo_request fresh_process)"
         demo_cache "demo_services ''fyi''" "''tok''" demo_request]
       labelCache_process_wide[of fresh_process demo_cache "demo_services ''fyi''" "''tok''" demo_request]
       demo_first_cache n
  show ?thesis by simp
qed

text \<open>
  C7. A label-apply call sends one modify request whose body has the single key
  \<open>addLabelIds\<close> with the single resolved label id, and lists nothing for removal; so
  does every modify request the handler sends. For a provider that keeps every label not
  listed for removal and adds only listed labels, the inbox and unread markers of the
  message stay, and no label other than the applied one changes.
\<close>

theorem applyLabel_adds_only:
  assumes keeps: "\<forall>b ls l. l \<in> set ls \<and> l \<notin> set (removeLabelIds_of b) \<longrightarrow> l \<in> set (effect b ls)"
    and adds: "\<forall>b ls l. l \<in> set (effect b ls) \<longrightarrow> l \<in> set ls \<or> l \<in> set (addLabelIds_of b)"
  shows "requests_during w (snd (applyLabel S tok mid lid w))
           = [ModifyMessage tok mid [(''addLabelIds'', [lid])]]
     \<and> map fst (modify_body lid) = [''addLabelIds'']
     \<and> addLabelIds_of (modify_body lid) = [lid]
     \<and> removeLabelIds_of (modify_body lid) = []
     \<and> (\<forall>r \<in> set (requests_during w (snd (serve S req w))). add_only r)
     \<and> (''INBOX'' \<in> set before \<longrightarrow> ''INBOX'' \<in> set (effect (modify_body lid) before))
     \<and> (''UNREAD'' \<in> set before \<longrightarrow> ''UNREAD'' \<in> set (effect (modify_body lid) before))
     \<and> (\<forall>m. m \<noteq> lid \<longrightarrow> (m \<in> set (effect (modify_body lid) before) \<longleftrightarrow> m \<in> set before))"
proof -
  have a: "requests_during w (snd (applyLabel S tok mid lid w))
           = [ModifyMessage tok mid [(''addLabelIds'', [lid])]]"
    by (simp add: requests_during_def applyLabel_log modify_body_def)
  have b: "map fst (modify_body lid) = [''addLabelIds'']"
    "addLabelIds_of (modify_body lid) = [lid]" "removeLabelIds_of (modify_body lid) = []"
    by (simp_all add: modify_body_def addLabelIds_of_def removeLabelIds_of_def)
  have c: "\<forall>r \<in> set (requests_during w (snd (serve S req w))). add_only r"
    using serve_add_only by blast
  have k: "l \<in> set before \<Longrightarrow> l \<in> set (effect (modify_body lid) before)" for l
    using keeps b(3) by simp
  have d: "m \<noteq> lid \<Longrightarrow> m \<in> set (effect (modify_body lid) before) \<Longrightarrow> m \<in> set before" for m
    using adds b(2) by fastforce
  from a b c k d show ?thesis by blast
qed

theorem applyLabel_adds_only_witness:
  "requests_during fresh_process
      (snd (applyLabel (demo_services ''fyi'') ''tok'' ''m1'' ''Label_1'' fresh_process))
     = [ModifyMessage ''tok'' ''m1'' [(''addLabelIds'', [''Label_1''])]]
   \<and> ModifyMessage ''tok'' ''m1'' [(''addLabelIds'', [''Label_1''])]
       \<in> set (requests_during fresh_process
                (snd (serve (demo_services ''fyi'') demo_request fresh_process)))
   \<and> add_only (ModifyMessage ''tok'' ''m1'' [(''addLabelIds'', [''Label_1''])])
   \<and> ''INBOX'' \<in> set (demo_effect (modify_body ''Label_1'') [''INBOX'', ''UNREAD''])
   \<and> ''UNREAD'' \<in> set (demo_effect (modify_body ''Label_1'') [''INBOX'', ''UNREAD''])
   \<and> ''STARRED'' \<notin> set (demo_effect (modify_body ''Label_1'') [''INBOX'', ''UNREAD''])"
proof -
  have keeps: "\<forall>b ls l. l \<in> set ls \<and> l \<notin> set (removeLabelIds_of b) \<longrightarrow> l \<in> set (demo_effect b ls)"
    by (simp add: demo_effect_def)
  have adds: "\<forall>b ls l. l \<in> set (demo_effect b ls) \<longrightarrow> l \<in> set ls \<or> l \<in> set (addLabelIds_of b)"
    by (auto simp: demo_effect_def)
  note m = demo_modify_sent
  let ?before = "[''INBOX'', ''UNREAD'']"
  let ?after = "demo_effect (modify_body ''Label_1'') ?before"
  note t = applyLabel_adds_only[OF keeps adds, of fresh_process "demo_services ''fyi''" "''tok''"
        "''m1''" "''Label_1''" demo_request ?before]
  have a: "requests_during fresh_process
      (snd (applyLabel (demo_services ''fyi'') ''tok'' ''m1'' ''Label_1'' fresh_process))
     = [ModifyMessage ''tok'' ''m1'' [(''addLabelIds'', [''Label_1''])]]"
    using t by (elim conjE)
  have t5: "\<forall>r \<in> set (requests_during fresh_process
                (snd (serve (demo_services ''fyi'') demo_request fresh_process))). add_only r"
    using t by (elim conjE)
  have b: "add_only (ModifyMessage ''tok'' ''m1'' [(''addLabelIds'', [''Label_1''])])"
    using t5 m by (rule bspec)
  have i1: "''INBOX'' \<in> set ?before \<longrightarrow> ''INBOX'' \<in> set ?after"
    using t by (elim conjE)
  have i2: "''UNREAD'' \<in> set ?before \<longrightarrow> ''UNREAD'' \<in> set ?after"
    using t by (elim conjE)
  have i3: "\<forall>m. m \<noteq> ''Label_1'' \<longrightarrow> (m \<in> set ?after \<longleftrightarrow> m \<in> set ?before)"
    using t by (elim conjE)
  from i1 have c1: "''INBOX'' \<in> set ?after" by simp
  from i2 have c2: "''UNREAD'' \<in> set ?after" by simp
  from i3 have "''STARRED'' \<noteq> ''Label_1'' \<longrightarrow> (''STARRED'' \<in> set ?after \<longleftrightarrow> ''STARRED'' \<in> set ?before)"
    by (rule spec)
  then have d: "''STARRED'' \<notin> set ?after" by simp
  show ?thesis
    using a m b c1 c2 d by (intro conjI)
qed

text \<open>
  C8. With no stop request, when three successive batch calls return the cursors A, B and
  then none, the run makes exactly these three calls, with no cursor, A and B in that
  order, ends completed, and its statistics and results are the sums and the
  concatenation of the three batches.
\<close>

theorem three_batches_complete:
  assumes tok: "truthy_token (provider_token E) = Some tok"
    and nostop: "\<forall>p. \<not> stop_clicked E p"
    and A: "A \<noteq> []" and B: "B \<noteq> []"
    and b1: "invoke E (invocations d) (tok, sec, None) = Data r1"
    and c1: "nextPageToken r1 = Some A"
    and b2: "invoke E (invocations d @ [(tok, sec, None)]) (tok, sec, Some A) = Data r2"
    and c2: "nextPageToken r2 = Some B"
    and b3: "invoke E (invocations d @ [(tok, sec, None), (tok, sec, Some A)]) (tok, sec, Some B)
               = Data r3"
    and c3: "truthy_token (nextPageToken r3) = None"
    and fuel: "3 \<le> fuel"
  shows "handleProcessSection fuel E sec d =
     Some (COMPLETED,
           d\<lparr>stopRequestedRef := False, processingAll := False, processing := False,
               currentSection := sec, error := None,
               result := Some \<lparr>ProcessingResult.total = ProcessingResult.total r1 + ProcessingResult.total r2 + ProcessingResult.total r3,
                        ProcessingResult.processed = ProcessingResult.processed r1 + ProcessingResult.processed r2 + ProcessingResult.processed r3,
                        ProcessingResult.skipped = ProcessingResult.skipped r1 + ProcessingResult.skipped r2 + ProcessingResult.skipped r3,
                        ProcessingResult.errors = ProcessingResult.errors r1 + ProcessingResult.errors r2 + ProcessingResult.errors r3,
                        results = results r1 @ results r2 @ results r3,
                        nextPageToken = None\<rparr>,
               currentBatch := 3,
               totalStats := Some \<lparr>TotalStats.total = ProcessingResult.total r1 + ProcessingResult.total r2 + ProcessingResult.total r3,
                        TotalStats.processed = ProcessingResult.processed r1 + ProcessingResult.processed r2 + ProcessingResult.processed r3,
                        TotalStats.skipped = ProcessingResult.skipped r1 + ProcessingResult.skipped r2 + ProcessingResult.skipped r3,
                        TotalStats.errors = ProcessingResult.errors r1 + ProcessingResult.errors r2 + ProcessingResult.errors r3,
                        batches = 3\<rparr>,
               invocations := invocations d @ [(tok, sec, None), (tok, sec, Some A), (tok, sec, Some B)]\<rparr>)"
proof -
  from fuel obtain n where f: "fuel = Suc (Suc (Suc n))"
    by (metis Suc_le_D numeral_3_eq_3 Suc_le_mono)
  have tA: "truthy_token (Some A) = Some A" and tB: "truthy_token (Some B) = Some B"
    using A B by (simp_all add: truthy_token_Some)
  show ?thesis
    unfolding f handleProcessSection_def
    using tok nostop b1 c1 b2 c2 b3 c3 tA tB
    by (simp add: Let_def processOneBatch_def await_def add_batch_def zero_stats_def
        shown_result_def)
qed

theorem three_batches_complete_witness:
  "handleProcessSection 3 (demo_env no_stop) ''inbox'' idle_dashboard =
     Some (COMPLETED,
           idle_dashboard\<lparr>
             result := Some \<lparr>ProcessingResult.total = 6, ProcessingResult.processed = 3,
                  ProcessingResult.skipped = 0, ProcessingResult.errors = 3,
                  results = [(demo_email ''m1'', ''FYI''), (demo_email ''m2'', ''FYI''), (demo_email ''m3'', ''FYI'')],
                  nextPageToken = None\<rparr>,
             currentBatch := 3,
             totalStats := Some \<lparr>TotalStats.total = 6, TotalStats.processed = 3,
                  TotalStats.skipped = 0, TotalStats.errors = 3, batches = 3\<rparr>,
             invocations := [(''tok'', ''inbox'', None), (''tok'', ''inbox'', Some ''A''),
                             (''tok'', ''inbox'', Some ''B'')]\<rparr>)"
proof -
  let ?E = "demo_env no_stop"
  have tok: "truthy_token (provider_token ?E) = Some ''tok''"
    by (simp add: demo_env_def truthy_token_def)
  have nostop: "\<forall>p. \<not> stop_clicked ?E p" by (simp add: demo_env_def no_stop_def)
  have b1: "invoke ?E (invocations idle_dashboard) (''tok'', ''inbox'', None)
              = Data (demo_batch ''m1'' 0 (Some ''A''))"
    by (simp add: demo_env_def scripted_invoke_def)
  have b2: "invoke ?E (invocations idle_dashboard @ [(''tok'', ''inbox'', None)])
              (''tok'', ''inbox'', Some ''A'') = Data (demo_batch ''m2'' 1 (Some ''B''))"
    by (simp add: demo_env_def scripted_invoke_def)
  have b3: "invoke ?E (invocations idle_dashboard @ [(''tok'', ''inbox'', None), (''tok'', ''inbox'', Some ''A'')])
              (''tok'', ''inbox'', Some ''B'') = Data (demo_batch ''m3'' 2 None)"
    by (simp add: demo_env_def scripted_invoke_def)
  have c1: "nextPageToken (demo_batch ''m1'' 0 (Some ''A'')) = Some ''A''"
    and c2: "nextPageToken (demo_batch ''m2'' 1 (Some ''B'')) = Some ''B''"
    and c3: "truthy_token (nextPageToken (demo_batch ''m3'' 2 None)) = None"
    by (simp_all add: demo_batch_def truthy_token_def)
  have A: "''A'' \<noteq> []" and B: "''B'' \<noteq> []" by simp_all
  have fuel: "(3::nat) \<le> 3" by simp
  from three_batches_complete[OF tok nostop A B b1 c1 b2 c2 b3 c3 fuel]
  show ?thesis
    by (simp add: idle_dashboard_def demo_batch_def)
qed




text \<open>
  C10. Every success payload of the handler reports a skipped count of 0.
\<close>

theorem skipped_always_zero:
  "fst (serve S req w) = Success r \<Longrightarrow> ProcessingResult.skipped r = 0"
proof -
  assume a: "fst (serve S req w) = Success r"
  then obtain body tok emails cursor w1 where
    h: "http_method req \<noteq> ''OPTIONS''" "http_body req = Inr body"
    "truthy_token (accessToken body) = Some tok"
    "fetchEmails S tok (case body_section body of None \<Rightarrow> ''all'' | Some s \<Rightarrow> s)
           (pageToken body) w = (Inr (emails, cursor), w1)"
    by (rule serve_Success_cases)
  from serve_success[OF h] a show ?thesis by simp
qed

theorem skipped_always_zero_witness:
  "fst (serve (demo_services ''fyi'') demo_request fresh_process) = Success demo_payload
   \<and> ProcessingResult.skipped demo_payload = 0"
  using skipped_always_zero[OF demo_run] demo_run by simp

end
